theory Spec2Isabelle
  imports Main "HOL-Library.Word" "HOL-Library.Sublist"
begin

section \<open>The Coin98 wallet adapter (src/solana/src/adapter.ts)\<close>

text \<open>
  The adapter is a class with three private fields that talks to a wallet object injected
  into the page by a browser extension. Every method is asynchronous, but each one awaits
  every call it makes, so a call of a public method is modelled as a function from the
  state before the call to the outcome and the state after it. The state holds the
  adapter's fields and everything else the methods read or write: the global
  \<open>window\<close>, the injected wallet objects (a store indexed by reference), the
  \<open>Transaction\<close> objects (a store indexed by reference, since
  \<open>signTransaction\<close> mutates and returns the object it was given) and a trace of
  the observable effects in the order they happen: events emitted by the adapter, calls
  made on a wallet object, and timer sleeps.
\<close>

text \<open>
  What the model takes for granted, as the types of adapter.ts declare it: calls of the
  public methods do not overlap (each is awaited before the next is made);
  \<open>isConnected()\<close> returns a boolean and does not throw; event listeners do not
  throw into the adapter; a wallet object reads the transaction it is handed and does not
  modify it.
\<close>

subsection \<open>Values\<close>

text \<open>A JavaScript string is a sequence of UTF-16 code units, a \<open>Uint8Array\<close> a
  sequence of bytes.\<close>

type_synonym js_string = "16 word list"
type_synonym bytes = "8 word list"

type_synonym wallet_ref = nat
type_synonym tx_ref = nat

text \<open>A value thrown by code outside the adapter (the wallet, \<open>PublicKey\<close>,
  \<open>bs58\<close>, \<open>Transaction\<close>).\<close>

datatype js_exn = JsError string

text \<open>The error classes of the wallet-adapter base package that adapter.ts constructs.
  \<open>new WalletAccountError(error?.message, error)\<close> keeps the error it wraps.\<close>

datatype wallet_error =
    WalletNotFoundError
  | WalletNotInstalledError
  | WalletAccountError js_exn
  | WalletPublicKeyError js_exn
  | WalletNotConnectedError
  | WalletSignTransactionError js_exn

text \<open>What a public method can reject with: one of the classes above, or a value thrown by
  outside code that reaches the caller as it is.\<close>

datatype thrown = WalletError wallet_error | Underlying js_exn

text \<open>The events of the adapter: \<open>emit('connect')\<close>, \<open>emit('disconnect')\<close>,
  \<open>emit('error', error)\<close>.\<close>

datatype event = Connect | Disconnect | Error thrown

subsection \<open>The injected wallet (interface Coin98Wallet)\<close>

text \<open>The argument of \<open>wallet.request\<close>: \<open>{ method, params }\<close> (the field
  \<open>method\<close> is \<open>method_name\<close> here). The adapter
  passes either a one-element array holding a transaction object or a one-element array
  holding a string.\<close>

datatype param = PTx tx_ref | PStr js_string

record request =
  method_name :: string
  params :: "param list"

text \<open>\<open>ResponseType = SIGN_REQUEST & SIGN_MESSAGE\<close>. The type declares five string
  fields; a field the wallet left out reads as \<open>undefined\<close>, which is \<open>None\<close>
  here.\<close>

record response =
  resp_signature :: "js_string option"
  resp_publicKey :: "js_string option"
  resp_address :: "js_string option"
  resp_msg :: "js_string option"
  resp_sig :: "js_string option"

text \<open>
  A wallet object is code the adapter does not own. Its behaviour is a state machine over a
  state \<open>'w\<close> of its own: each method takes the wallet's state and returns what the
  awaited promise settles to (\<open>Inl\<close> a rejection, \<open>Inr\<close> the value) and the
  wallet's next state. \<open>request\<close> can read the transaction objects it is handed.
  The interface also declares \<open>signTransaction\<close> and \<open>signMessage\<close>, which the
  adapter never calls.
\<close>

record ('w, 'tx) wallet_obj =
  isCoin98 :: "bool option"
  w_isConnected :: "'w \<Rightarrow> bool \<times> 'w"
  w_connect :: "'w \<Rightarrow> (js_exn + js_string list) \<times> 'w"
  w_disconnect :: "'w \<Rightarrow> (js_exn + unit) \<times> 'w"
  w_request :: "request \<Rightarrow> (tx_ref \<Rightarrow> 'tx) \<Rightarrow> 'w \<Rightarrow> (js_exn + response) \<times> 'w"
  w_state :: 'w

text \<open>\<open>interface Coin98Window extends Window { coin98?: { sol?: Coin98Wallet } }\<close>; the
  global \<open>window\<close> itself may be undefined.\<close>

record coin98_global =
  sol :: "wallet_ref option"

record window_obj =
  coin98 :: "coin98_global option"

subsection \<open>Observable effects\<close>

datatype wallet_call = IsConnected | WConnect | WDisconnect | Request request

datatype effect = Emit event | Call wallet_ref wallet_call | Sleep nat

subsection \<open>State\<close>

text \<open>\<open>priv_connecting\<close>, \<open>priv_wallet\<close> and \<open>priv_publicKey\<close> are the private
  fields \<open>_connecting\<close>, \<open>_wallet\<close> and \<open>_publicKey\<close> of
  \<open>Coin98WalletAdapter\<close>.\<close>

record ('w, 'pk, 'tx) state =
  priv_connecting :: bool
  priv_wallet :: "wallet_ref option"
  priv_publicKey :: "'pk option"
  window :: "window_obj option"
  wallets :: "wallet_ref \<Rightarrow> ('w, 'tx) wallet_obj"
  txs :: "tx_ref \<Rightarrow> 'tx"
  trace :: "effect list"

text \<open>
  The functions of @solana/web3.js and bs58 that adapter.ts calls are not part of the
  repository; they are parameters of the model. \<open>new PublicKey(x)\<close> and
  \<open>bs58.decode(x)\<close> return or throw; \<open>transaction.addSignature(pk, sig)\<close>
  returns or throws and leaves the transaction object in some state either way.
\<close>

record ('pk, 'tx) libs =
  PublicKey_new :: "js_string option \<Rightarrow> js_exn + 'pk"
  bs58_decode :: "js_string option \<Rightarrow> js_exn + bytes"
  addSignature :: "'tx \<Rightarrow> 'pk \<Rightarrow> bytes \<Rightarrow> (js_exn + unit) \<times> 'tx"

subsection \<open>Primitive steps\<close>

definition emit :: "event \<Rightarrow> ('w, 'pk, 'tx) state \<Rightarrow> ('w, 'pk, 'tx) state" where
  "emit ev s = s\<lparr>trace := trace s @ [Emit ev]\<rparr>"

text \<open>\<open>sleep(ms = 500)\<close>: a promise resolved by \<open>setTimeout\<close> after \<open>ms\<close>
  milliseconds; the argument left out is the default.\<close>

definition sleep :: "nat option \<Rightarrow> ('w, 'pk, 'tx) state \<Rightarrow> ('w, 'pk, 'tx) state" where
  "sleep ms s =
     s\<lparr>trace := trace s @ [Sleep (case ms of None \<Rightarrow> 500 | Some n \<Rightarrow> n)]\<rparr>"

text \<open>A call of a wallet method: the call is logged, the wallet object's own state
  advances, and the settled value comes back.\<close>

definition call_isConnected ::
  "wallet_ref \<Rightarrow> ('w, 'pk, 'tx) state \<Rightarrow> bool \<times> ('w, 'pk, 'tx) state" where
  "call_isConnected r s =
     (let w = wallets s r in
      case w_isConnected w (w_state w) of
        (b, st) \<Rightarrow>
          (b, s\<lparr>wallets := (wallets s)(r := w\<lparr>w_state := st\<rparr>),
                trace := trace s @ [Call r IsConnected]\<rparr>))"

definition call_connect ::
  "wallet_ref \<Rightarrow> ('w, 'pk, 'tx) state \<Rightarrow> (js_exn + js_string list) \<times> ('w, 'pk, 'tx) state" where
  "call_connect r s =
     (let w = wallets s r in
      case w_connect w (w_state w) of
        (res, st) \<Rightarrow>
          (res, s\<lparr>wallets := (wallets s)(r := w\<lparr>w_state := st\<rparr>),
                  trace := trace s @ [Call r WConnect]\<rparr>))"

definition call_disconnect ::
  "wallet_ref \<Rightarrow> ('w, 'pk, 'tx) state \<Rightarrow> (js_exn + unit) \<times> ('w, 'pk, 'tx) state" where
  "call_disconnect r s =
     (let w = wallets s r in
      case w_disconnect w (w_state w) of
        (res, st) \<Rightarrow>
          (res, s\<lparr>wallets := (wallets s)(r := w\<lparr>w_state := st\<rparr>),
                  trace := trace s @ [Call r WDisconnect]\<rparr>))"

definition call_request ::
  "wallet_ref \<Rightarrow> request \<Rightarrow> ('w, 'pk, 'tx) state \<Rightarrow> (js_exn + response) \<times> ('w, 'pk, 'tx) state" where
  "call_request r req s =
     (let w = wallets s r in
      case w_request w req (txs s) (w_state w) of
        (res, st) \<Rightarrow>
          (res, s\<lparr>wallets := (wallets s)(r := w\<lparr>w_state := st\<rparr>),
                  trace := trace s @ [Call r (Request req)]\<rparr>))"

subsection \<open>The getters\<close>

definition publicKey :: "('w, 'pk, 'tx) state \<Rightarrow> 'pk option" where
  "publicKey s = priv_publicKey s"

text \<open>\<open>typeof window !== 'undefined' && !!window.coin98\<close>\<close>

definition ready :: "('w, 'pk, 'tx) state \<Rightarrow> bool" where
  "ready s = (case window s of None \<Rightarrow> False | Some win \<Rightarrow> coin98 win \<noteq> None)"

definition connecting :: "('w, 'pk, 'tx) state \<Rightarrow> bool" where
  "connecting s = priv_connecting s"

text \<open>\<open>!!this._wallet?.isConnected()\<close>: no call when \<open>_wallet\<close> is null.\<close>

definition connected :: "('w, 'pk, 'tx) state \<Rightarrow> bool \<times> ('w, 'pk, 'tx) state" where
  "connected s =
     (case priv_wallet s of
        None \<Rightarrow> (False, s)
      | Some r \<Rightarrow> call_isConnected r s)"

subsection \<open>The constructor\<close>

text \<open>The three fields as the constructor sets them, in a given environment. The
  constructor also starts \<open>pollUntilReady\<close> of the base package when \<open>ready\<close> is
  false; that polling touches none of the three fields and is not modelled.\<close>

definition new_adapter ::
  "window_obj option \<Rightarrow> (wallet_ref \<Rightarrow> ('w, 'tx) wallet_obj) \<Rightarrow> (tx_ref \<Rightarrow> 'tx)
     \<Rightarrow> ('w, 'pk, 'tx) state" where
  "new_adapter win ws ts =
     \<lparr>priv_connecting = False, priv_wallet = None, priv_publicKey = None,
      window = win, wallets = ws, txs = ts, trace = []\<rparr>"

subsection \<open>connect\<close>

text \<open>\<open>typeof window !== 'undefined' && window.coin98?.sol\<close>: a wallet object, or a
  falsy value.\<close>

definition window_wallet :: "('w, 'pk, 'tx) state \<Rightarrow> wallet_ref option" where
  "window_wallet s =
     (case window s of
        None \<Rightarrow> None
      | Some win \<Rightarrow> (case coin98 win of None \<Rightarrow> None | Some c \<Rightarrow> sol c))"

text \<open>The \<open>try\<close> block of \<open>connect\<close>. \<open>[account] = await wallet.connect()\<close>
  takes the first element, \<open>undefined\<close> for an empty array.\<close>

definition connect_try ::
  "('pk, 'tx) libs \<Rightarrow> ('w, 'pk, 'tx) state \<Rightarrow> (thrown + unit) \<times> ('w, 'pk, 'tx) state" where
  "connect_try L s =
     (case connected s of
        (c, s1) \<Rightarrow>
          if c \<or> connecting s1 then (Inr (), s1)
          else
            (let s2 = s1\<lparr>priv_connecting := True\<rparr> in
             case window_wallet s2 of
               None \<Rightarrow> (Inl (WalletError WalletNotFoundError), s2)
             | Some r \<Rightarrow>
                 if isCoin98 (wallets s2 r) \<noteq> Some True
                 then (Inl (WalletError WalletNotInstalledError), s2)
                 else
                   (case call_connect r s2 of
                      (Inl e, s3) \<Rightarrow> (Inl (WalletError (WalletAccountError e)), s3)
                    | (Inr accounts, s3) \<Rightarrow>
                        (case PublicKey_new L (case accounts of [] \<Rightarrow> None | a # _ \<Rightarrow> Some a) of
                           Inl e \<Rightarrow> (Inl (WalletError (WalletPublicKeyError e)), s3)
                         | Inr pk \<Rightarrow>
                             (Inr (),
                              emit Connect
                                (s3\<lparr>priv_wallet := Some r, priv_publicKey := Some pk\<rparr>))))))"

text \<open>\<open>catch (error) { this.emit('error', error); throw error; }
  finally { this._connecting = false; }\<close>\<close>

definition connect ::
  "('pk, 'tx) libs \<Rightarrow> ('w, 'pk, 'tx) state \<Rightarrow> (thrown + unit) \<times> ('w, 'pk, 'tx) state" where
  "connect L s =
     (case connect_try L s of
        (Inl e, s1) \<Rightarrow> (Inl e, (emit (Error e) s1)\<lparr>priv_connecting := False\<rparr>)
      | (Inr u, s1) \<Rightarrow> (Inr u, s1\<lparr>priv_connecting := False\<rparr>))"

subsection \<open>disconnect\<close>

text \<open>No \<open>try\<close> here: a rejection of \<open>await wallet.disconnect()\<close> leaves the method
  at that line.\<close>

definition disconnect ::
  "('w, 'pk, 'tx) state \<Rightarrow> (thrown + unit) \<times> ('w, 'pk, 'tx) state" where
  "disconnect s =
     (case priv_wallet s of
        None \<Rightarrow> (Inr (), emit Disconnect s)
      | Some r \<Rightarrow>
          (case call_disconnect r (s\<lparr>priv_wallet := None, priv_publicKey := None\<rparr>) of
             (Inl e, s1) \<Rightarrow> (Inl (Underlying e), s1)
           | (Inr u, s1) \<Rightarrow> (Inr (), emit Disconnect s1)))"

subsection \<open>signTransaction and signAllTransactions\<close>

text \<open>The inner \<open>try\<close> of \<open>signTransaction\<close>: everything thrown between the request
  and \<open>addSignature\<close> becomes a \<open>WalletSignTransactionError\<close>.\<close>

definition sign_try ::
  "('pk, 'tx) libs \<Rightarrow> wallet_ref \<Rightarrow> tx_ref \<Rightarrow> ('w, 'pk, 'tx) state
     \<Rightarrow> (js_exn + tx_ref) \<times> ('w, 'pk, 'tx) state" where
  "sign_try L r t s =
     (case call_request r \<lparr>method_name = ''sol_sign'', params = [PTx t]\<rparr> s of
        (Inl e, s1) \<Rightarrow> (Inl e, s1)
      | (Inr resp, s1) \<Rightarrow>
          (case PublicKey_new L (resp_publicKey resp) of
             Inl e \<Rightarrow> (Inl e, s1)
           | Inr pk \<Rightarrow>
               (case bs58_decode L (resp_signature resp) of
                  Inl e \<Rightarrow> (Inl e, s1)
                | Inr sg \<Rightarrow>
                    (case addSignature L (txs s1 t) pk sg of
                       (Inl e, tx) \<Rightarrow> (Inl e, s1\<lparr>txs := (txs s1)(t := tx)\<rparr>)
                     | (Inr u, tx) \<Rightarrow> (Inr t, s1\<lparr>txs := (txs s1)(t := tx)\<rparr>)))))"

definition signTransaction ::
  "('pk, 'tx) libs \<Rightarrow> tx_ref \<Rightarrow> ('w, 'pk, 'tx) state
     \<Rightarrow> (thrown + tx_ref) \<times> ('w, 'pk, 'tx) state" where
  "signTransaction L t s =
     (case priv_wallet s of
        None \<Rightarrow>
          (Inl (WalletError WalletNotConnectedError),
           emit (Error (WalletError WalletNotConnectedError)) s)
      | Some r \<Rightarrow>
          (case sign_try L r t s of
             (Inl e, s1) \<Rightarrow>
               (Inl (WalletError (WalletSignTransactionError e)),
                emit (Error (WalletError (WalletSignTransactionError e))) s1)
           | (Inr t', s1) \<Rightarrow> (Inr t', s1)))"

text \<open>The \<open>for\<close> loop of \<open>signAllTransactions\<close>, with the array
  \<open>signedTransactions\<close> built so far as accumulator.\<close>

fun signAll_loop ::
  "('pk, 'tx) libs \<Rightarrow> tx_ref list \<Rightarrow> tx_ref list \<Rightarrow> ('w, 'pk, 'tx) state
     \<Rightarrow> (thrown + tx_ref list) \<times> ('w, 'pk, 'tx) state" where
  "signAll_loop L [] signedTransactions s = (Inr signedTransactions, s)"
| "signAll_loop L (t # ts) signedTransactions s =
     (case signTransaction L t s of
        (Inl e, s1) \<Rightarrow> (Inl e, s1)
      | (Inr signedTransaction, s1) \<Rightarrow>
          signAll_loop L ts (signedTransactions @ [signedTransaction]) (sleep None s1))"

definition signAllTransactions ::
  "('pk, 'tx) libs \<Rightarrow> tx_ref list \<Rightarrow> ('w, 'pk, 'tx) state
     \<Rightarrow> (thrown + tx_ref list) \<times> ('w, 'pk, 'tx) state" where
  "signAllTransactions L transactions s = signAll_loop L transactions [] s"

subsection \<open>TextDecoder and TextEncoder\<close>

text \<open>
  \<open>signMessage\<close> uses two platform classes, \<open>new TextDecoder("utf-8")\<close> and
  \<open>new TextEncoder()\<close>. They are modelled after the Encoding standard: code points
  are natural numbers, and the byte-level functions work on the numeric value of each byte.

  \<open>encode\<close> first turns the JavaScript string into a sequence of scalar values: a
  lead surrogate followed by a trail surrogate is one supplementary code point, any other
  surrogate becomes U+FFFD.
\<close>

definition lead_surrogate :: "16 word \<Rightarrow> bool" where
  "lead_surrogate c = (0xD800 \<le> unat c \<and> unat c \<le> 0xDBFF)"

definition trail_surrogate :: "16 word \<Rightarrow> bool" where
  "trail_surrogate c = (0xDC00 \<le> unat c \<and> unat c \<le> 0xDFFF)"

fun to_scalar_values :: "js_string \<Rightarrow> nat list" where
  "to_scalar_values [] = []"
| "to_scalar_values [c] =
     (if lead_surrogate c \<or> trail_surrogate c then [0xFFFD] else [unat c])"
| "to_scalar_values (c # d # cs) =
     (if lead_surrogate c \<and> trail_surrogate d
      then (0x10000 + (unat c - 0xD800) * 0x400 + (unat d - 0xDC00)) # to_scalar_values cs
      else if lead_surrogate c \<or> trail_surrogate c then 0xFFFD # to_scalar_values (d # cs)
      else unat c # to_scalar_values (d # cs))"

text \<open>The UTF-8 encoder: one to four bytes for a scalar value.\<close>

definition utf8_encode_cp :: "nat \<Rightarrow> nat list" where
  "utf8_encode_cp cp =
     (if cp < 0x80 then [cp]
      else if cp < 0x800 then [0xC0 + cp div 0x40, 0x80 + cp mod 0x40]
      else if cp < 0x10000
        then [0xE0 + cp div 0x1000, 0x80 + (cp div 0x40) mod 0x40, 0x80 + cp mod 0x40]
      else [0xF0 + cp div 0x40000, 0x80 + (cp div 0x1000) mod 0x40,
            0x80 + (cp div 0x40) mod 0x40, 0x80 + cp mod 0x40])"

text \<open>\<open>new TextEncoder().encode(input)\<close>; the argument defaults to the empty string,
  so \<open>undefined\<close> encodes to no bytes.\<close>

definition TextEncoder_encode :: "js_string option \<Rightarrow> bytes" where
  "TextEncoder_encode input =
     (case input of
        None \<Rightarrow> []
      | Some s \<Rightarrow> map of_nat (concat (map utf8_encode_cp (to_scalar_values s))))"

text \<open>
  The UTF-8 decoder of the Encoding standard, in its default (non-fatal) mode: the code
  point assembled so far, the number of continuation bytes still needed, and the bounds the
  next continuation byte must lie in. A byte that cannot continue a sequence ends the
  sequence with U+FFFD and is read again as the start of a new one.
\<close>

function utf8_decoder :: "nat \<Rightarrow> nat \<Rightarrow> nat \<Rightarrow> nat \<Rightarrow> nat list \<Rightarrow> nat list" where
  "utf8_decoder cp needed lower upper [] = (if needed \<noteq> 0 then [0xFFFD] else [])"
| "utf8_decoder cp needed lower upper (b # bs) =
     (if needed = 0 then
        (if b \<le> 0x7F then b # utf8_decoder 0 0 0x80 0xBF bs
         else if 0xC2 \<le> b \<and> b \<le> 0xDF then utf8_decoder (b mod 0x20) 1 0x80 0xBF bs
         else if 0xE0 \<le> b \<and> b \<le> 0xEF
           then utf8_decoder (b mod 0x10) 2
                  (if b = 0xE0 then 0xA0 else 0x80) (if b = 0xED then 0x9F else 0xBF) bs
         else if 0xF0 \<le> b \<and> b \<le> 0xF4
           then utf8_decoder (b mod 0x8) 3
                  (if b = 0xF0 then 0x90 else 0x80) (if b = 0xF4 then 0x8F else 0xBF) bs
         else 0xFFFD # utf8_decoder 0 0 0x80 0xBF bs)
      else if b < lower \<or> upper < b then 0xFFFD # utf8_decoder 0 0 0x80 0xBF (b # bs)
      else if needed = 1 then (cp * 0x40 + b mod 0x40) # utf8_decoder 0 0 0x80 0xBF bs
      else utf8_decoder (cp * 0x40 + b mod 0x40) (needed - 1) 0x80 0xBF bs)"
  by pat_completeness auto
termination
  by (relation "measure (\<lambda>(cp, needed, lower, upper, bs).
                  2 * length bs + (if needed = 0 then 0 else 1))") auto

definition utf8_decode :: "nat list \<Rightarrow> nat list" where
  "utf8_decode bs = utf8_decoder 0 0 0x80 0xBF bs"

text \<open>A decoder created without \<open>ignoreBOM\<close> drops a byte order mark at the start.\<close>

definition strip_bom :: "nat list \<Rightarrow> nat list" where
  "strip_bom cps = (case cps of [] \<Rightarrow> [] | c # cs \<Rightarrow> if c = 0xFEFF then cs else c # cs)"

text \<open>Code points back to UTF-16 code units.\<close>

fun from_scalar_values :: "nat list \<Rightarrow> js_string" where
  "from_scalar_values [] = []"
| "from_scalar_values (cp # cps) =
     (if cp < 0x10000 then of_nat cp # from_scalar_values cps
      else of_nat (0xD800 + (cp - 0x10000) div 0x400)
         # of_nat (0xDC00 + (cp - 0x10000) mod 0x400) # from_scalar_values cps)"

text \<open>\<open>new TextDecoder("utf-8").decode(message)\<close>\<close>

definition TextDecoder_decode :: "bytes \<Rightarrow> js_string" where
  "TextDecoder_decode message =
     from_scalar_values (strip_bom (utf8_decode (map unat message)))"

text \<open>A string is well formed when every surrogate in it is half of a pair.\<close>

fun well_formed :: "js_string \<Rightarrow> bool" where
  "well_formed [] = True"
| "well_formed [c] = (\<not> lead_surrogate c \<and> \<not> trail_surrogate c)"
| "well_formed (c # d # cs) =
     (if lead_surrogate c then trail_surrogate d \<and> well_formed cs
      else \<not> trail_surrogate c \<and> well_formed (d # cs))"

text \<open>Whether a string starts with the byte order mark U+FEFF.\<close>

fun starts_with_bom :: "js_string \<Rightarrow> bool" where
  "starts_with_bom [] = False"
| "starts_with_bom (c # cs) = (c = 0xFEFF)"

text \<open>Unicode scalar values: code points that are not surrogates.\<close>

definition scalar :: "nat \<Rightarrow> bool" where
  "scalar cp = (cp < 0x110000 \<and> (cp < 0xD800 \<or> 0xDFFF < cp))"

subsection \<open>signMessage\<close>

text \<open>The decoder never throws, so inside the inner \<open>try\<close> only the request can fail:
  by rejecting. \<open>const {sig: signature} = await ...\<close> reads the field \<open>sig\<close> of the
  response.\<close>

definition signMessage ::
  "bytes \<Rightarrow> ('w, 'pk, 'tx) state \<Rightarrow> (thrown + bytes) \<times> ('w, 'pk, 'tx) state" where
  "signMessage message s =
     (case priv_wallet s of
        None \<Rightarrow>
          (Inl (WalletError WalletNotConnectedError),
           emit (Error (WalletError WalletNotConnectedError)) s)
      | Some r \<Rightarrow>
          (let decodedMessage = TextDecoder_decode message in
           case call_request r \<lparr>method_name = ''sol_sign'', params = [PStr decodedMessage]\<rparr> s of
             (Inl e, s1) \<Rightarrow>
               (Inl (WalletError (WalletSignTransactionError e)),
                emit (Error (WalletError (WalletSignTransactionError e))) s1)
           | (Inr resp, s1) \<Rightarrow> (Inr (TextEncoder_encode (resp_sig resp)), s1)))"

subsection \<open>Sequences of calls\<close>

text \<open>A client of the adapter calls its public methods one after the other, each awaited.
  \<open>run_call\<close> performs one call and tells whether it returned (\<open>True\<close>) or
  threw.\<close>

datatype call =
    CallConnect
  | CallDisconnect
  | CallSignTransaction tx_ref
  | CallSignAllTransactions "tx_ref list"
  | CallSignMessage bytes

definition returned :: "('e + 'a) \<times> 's \<Rightarrow> bool \<times> 's" where
  "returned p = (case p of (Inl e, s) \<Rightarrow> (False, s) | (Inr v, s) \<Rightarrow> (True, s))"

fun run_call ::
  "('pk, 'tx) libs \<Rightarrow> call \<Rightarrow> ('w, 'pk, 'tx) state \<Rightarrow> bool \<times> ('w, 'pk, 'tx) state" where
  "run_call L CallConnect s = returned (connect L s)"
| "run_call L CallDisconnect s = returned (disconnect s)"
| "run_call L (CallSignTransaction t) s = returned (signTransaction L t s)"
| "run_call L (CallSignAllTransactions ts) s = returned (signAllTransactions L ts s)"
| "run_call L (CallSignMessage m) s = returned (signMessage m s)"

text \<open>
  The states an adapter can be in, with the history of the calls made on it so far (the
  latest call first): it starts as the constructor leaves it, a public method is called, or
  the environment changes behind its back (the page's \<open>window\<close>, the wallet objects
  and the transaction objects are not the adapter's).
\<close>

inductive reachable ::
  "('pk, 'tx) libs \<Rightarrow> (call \<times> bool) list \<Rightarrow> ('w, 'pk, 'tx) state \<Rightarrow> bool"
  for L :: "('pk, 'tx) libs" where
  constructed: "reachable L [] (new_adapter win ws ts)"
| called: "reachable L h s \<Longrightarrow>
     reachable L ((c, fst (run_call L c s)) # h) (snd (run_call L c s))"
| environment: "reachable L h s \<Longrightarrow>
     reachable L h (s\<lparr>window := win, wallets := ws, txs := ts\<rparr>)"

code_pred reachable .

text \<open>Whether a call of \<open>connect\<close> has returned since the latest call of
  \<open>disconnect\<close> (or since construction, when there was none).\<close>

fun connected_since_disconnect :: "(call \<times> bool) list \<Rightarrow> bool" where
  "connected_since_disconnect [] = False"
| "connected_since_disconnect ((CallDisconnect, ok) # h) = False"
| "connected_since_disconnect ((CallConnect, ok) # h) =
     (if ok then True else connected_since_disconnect h)"
| "connected_since_disconnect ((c, ok) # h) = connected_since_disconnect h"

subsection \<open>Reading a trace\<close>

text \<open>How often \<open>connect\<close> of a wallet object was called.\<close>

fun is_wallet_connect :: "effect \<Rightarrow> bool" where
  "is_wallet_connect (Call r WConnect) = True"
| "is_wallet_connect e = False"

definition wallet_connect_calls :: "effect list \<Rightarrow> nat" where
  "wallet_connect_calls es = length (filter is_wallet_connect es)"

text \<open>The signing steps of a trace, in order: \<open>Inl t\<close> for a request carrying the
  transaction \<open>t\<close>, \<open>Inr ms\<close> for a sleep of \<open>ms\<close> milliseconds.\<close>

fun sign_steps :: "effect list \<Rightarrow> (tx_ref + nat) list" where
  "sign_steps [] = []"
| "sign_steps (Call r (Request req) # es) =
     (case params req of
        [PTx t] \<Rightarrow> Inl t # sign_steps es
      | _ \<Rightarrow> sign_steps es)"
| "sign_steps (Sleep ms # es) = Inr ms # sign_steps es"
| "sign_steps (e # es) = sign_steps es"

text \<open>What \<open>signAllTransactions\<close> is to do for a list of transactions: a request for
  each, in order, each followed by the default sleep.\<close>

fun sign_plan :: "tx_ref list \<Rightarrow> (tx_ref + nat) list" where
  "sign_plan [] = []"
| "sign_plan (t # ts) = Inl t # Inr 500 # sign_plan ts"

text \<open>The effects a call added to the trace.\<close>


definition added :: "('w, 'pk, 'tx) state \<Rightarrow> ('w, 'pk, 'tx) state \<Rightarrow> effect list" where
  "added s s' = drop (length (trace s)) (trace s')"

subsection \<open>What signing a list of transactions is to do\<close>

text \<open>
  The specification of signing, written from its description and not from the code of
  \<open>signTransaction\<close>. To sign one transaction with the wallet \<open>r\<close>: send the
  wallet a request with the method \<open>sol_sign\<close> and the transaction as its only
  parameter; when the wallet answers, read the public key and the signature out of the
  answer and attach them to that transaction object. The result is the state in which this
  has happened, or nothing when the request, the key, the signature or the attaching fails.
\<close>

definition spec_sign_one ::
  "('pk, 'tx) libs \<Rightarrow> wallet_ref \<Rightarrow> tx_ref \<Rightarrow> ('w, 'pk, 'tx) state
     \<Rightarrow> ('w, 'pk, 'tx) state option" where
  "spec_sign_one L r t s =
     (case call_request r \<lparr>method_name = ''sol_sign'', params = [PTx t]\<rparr> s of
        (Inl e, s1) \<Rightarrow> None
      | (Inr resp, s1) \<Rightarrow>
          (case PublicKey_new L (resp_publicKey resp) of
             Inl e \<Rightarrow> None
           | Inr pk \<Rightarrow>
               (case bs58_decode L (resp_signature resp) of
                  Inl e \<Rightarrow> None
                | Inr sg \<Rightarrow>
                    (case addSignature L (txs s1 t) pk sg of
                       (Inl e, tx) \<Rightarrow> None
                     | (Inr u, tx) \<Rightarrow> Some (s1\<lparr>txs := (txs s1)(t := tx)\<rparr>)))))"

text \<open>To sign a list: sign the first transaction, sleep 500 ms, and only then go on with
  the rest, in the state the first signature and the sleep have left. So the wallet, asked
  for a later signature, sees every earlier transaction of the list with its signature
  attached.\<close>

fun spec_sign_in_turn ::
  "('pk, 'tx) libs \<Rightarrow> wallet_ref \<Rightarrow> tx_ref list \<Rightarrow> ('w, 'pk, 'tx) state
     \<Rightarrow> ('w, 'pk, 'tx) state option" where
  "spec_sign_in_turn L r [] s = Some s"
| "spec_sign_in_turn L r (t # ts) s =
     (case spec_sign_one L r t s of
        None \<Rightarrow> None
      | Some s1 \<Rightarrow> spec_sign_in_turn L r ts (s1\<lparr>trace := trace s1 @ [Sleep 500]\<rparr>))"

text \<open>The trace of signing a list with the wallet \<open>r\<close>, when nothing fails: for each
  transaction in turn the request to \<open>r\<close>, then the sleep.\<close>

fun sign_effects :: "wallet_ref \<Rightarrow> tx_ref list \<Rightarrow> effect list" where
  "sign_effects r [] = []"
| "sign_effects r (t # ts) =
     Call r (Request \<lparr>method_name = ''sol_sign'', params = [PTx t]\<rparr>) # Sleep 500
       # sign_effects r ts"

subsection \<open>signAllTransactions at the grain of its awaits\<close>

text \<open>
  The functions above take each awaited call as one step. To say what \<open>await\<close>
  contributes, \<open>signAllTransactions\<close> is also modelled as the engine runs it: as a
  job (one call of the method) that is suspended at each \<open>await\<close> and resumed when
  the promise it waits for settles. While it is suspended anything else may run.

  \<open>after_request\<close> is the part of \<open>signTransaction\<close> that runs once the awaited
  request has settled, with the value or the rejection it settled to.
\<close>

definition after_request ::
  "('pk, 'tx) libs \<Rightarrow> tx_ref \<Rightarrow> js_exn + response \<Rightarrow> ('w, 'pk, 'tx) state
     \<Rightarrow> (thrown + tx_ref) \<times> ('w, 'pk, 'tx) state" where
  "after_request L t outcome s =
     (case outcome of
        Inl e \<Rightarrow>
          (Inl (WalletError (WalletSignTransactionError e)),
           emit (Error (WalletError (WalletSignTransactionError e))) s)
      | Inr resp \<Rightarrow>
          (case PublicKey_new L (resp_publicKey resp) of
             Inl e \<Rightarrow>
               (Inl (WalletError (WalletSignTransactionError e)),
                emit (Error (WalletError (WalletSignTransactionError e))) s)
           | Inr pk \<Rightarrow>
               (case bs58_decode L (resp_signature resp) of
                  Inl e \<Rightarrow>
                    (Inl (WalletError (WalletSignTransactionError e)),
                     emit (Error (WalletError (WalletSignTransactionError e))) s)
                | Inr sg \<Rightarrow>
                    (case addSignature L (txs s t) pk sg of
                       (Inl e, tx) \<Rightarrow>
                         (Inl (WalletError (WalletSignTransactionError e)),
                          emit (Error (WalletError (WalletSignTransactionError e)))
                            (s\<lparr>txs := (txs s)(t := tx)\<rparr>))
                     | (Inr u, tx) \<Rightarrow> (Inr t, s\<lparr>txs := (txs s)(t := tx)\<rparr>)))))"

text \<open>Where the job stands: at the head of the loop with the transactions still to sign
  and the array \<open>signedTransactions\<close>; suspended in \<open>signTransaction\<close> at
  \<open>await wallet.request(...)\<close>; suspended at \<open>await this.sleep()\<close>; or
  finished, with the list it returned or the error it threw.\<close>

datatype job =
    AtLoop "tx_ref list" "tx_ref list"
  | AwaitRequest tx_ref "tx_ref list" "tx_ref list"
  | AwaitSleep "tx_ref list" "tx_ref list"
  | Done "thrown + tx_ref list"

text \<open>What is recorded of a run: a request is issued, the promise of a request settles,
  a sleep starts, a sleep is over.\<close>

datatype async_event = Issued tx_ref | Settled tx_ref | SleepStarted | SleepOver

text \<open>
  One step of the job, or of the rest of the world while the job is suspended. A promise
  settles to whatever the wallet makes it settle to, whenever it does; in between the state
  may change in any way (the wallet works, other methods of the adapter are called). The
  return of \<open>signTransaction\<close> and the resumption of the loop are taken as one step
  with the settling of the request.
\<close>

inductive async_step ::
  "('pk, 'tx) libs \<Rightarrow> job \<times> ('w, 'pk, 'tx) state \<times> async_event list
     \<Rightarrow> job \<times> ('w, 'pk, 'tx) state \<times> async_event list \<Rightarrow> bool"
  for L :: "('pk, 'tx) libs" where
  finish: "async_step L (AtLoop [] sofar, s, log) (Done (Inr sofar), s, log)"
| no_handle: "priv_wallet s = None \<Longrightarrow>
     async_step L (AtLoop (t # ts) sofar, s, log)
       (Done (Inl (WalletError WalletNotConnectedError)),
        emit (Error (WalletError WalletNotConnectedError)) s, log)"
| issue: "priv_wallet s = Some r \<Longrightarrow>
     async_step L (AtLoop (t # ts) sofar, s, log)
       (AwaitRequest t ts sofar,
        s\<lparr>trace := trace s @ [Call r (Request \<lparr>method_name = ''sol_sign'',
                                                 params = [PTx t]\<rparr>)]\<rparr>,
        log @ [Issued t])"
| settle_throw: "after_request L t outcome s = (Inl e, s1) \<Longrightarrow>
     async_step L (AwaitRequest t ts sofar, s, log) (Done (Inl e), s1, log @ [Settled t])"
| settle_return: "after_request L t outcome s = (Inr t', s1) \<Longrightarrow>
     async_step L (AwaitRequest t ts sofar, s, log)
       (AwaitSleep ts (sofar @ [t']), sleep None s1, log @ [Settled t, SleepStarted])"
| wake: "async_step L (AwaitSleep ts sofar, s, log) (AtLoop ts sofar, s, log @ [SleepOver])"
| meanwhile_request:
    "async_step L (AwaitRequest t ts sofar, s, log) (AwaitRequest t ts sofar, s', log)"
| meanwhile_sleep:
    "async_step L (AwaitSleep ts sofar, s, log) (AwaitSleep ts sofar, s', log)"

code_pred async_step .

inductive async_run ::
  "('pk, 'tx) libs \<Rightarrow> job \<times> ('w, 'pk, 'tx) state \<times> async_event list
     \<Rightarrow> job \<times> ('w, 'pk, 'tx) state \<times> async_event list \<Rightarrow> bool"
  for L :: "('pk, 'tx) libs" where
  start: "async_run L c c"
| step: "async_run L c c' \<Longrightarrow> async_step L c' c'' \<Longrightarrow> async_run L c c''"

code_pred async_run .

text \<open>The record of a run in which every transaction is signed: for each transaction in
  turn, its request is issued and settles, then the sleep starts and is over, and only then
  comes the next request.\<close>

fun async_plan :: "tx_ref list \<Rightarrow> async_event list" where
  "async_plan [] = []"
| "async_plan (t # ts) = Issued t # Settled t # SleepStarted # SleepOver # async_plan ts"

text \<open>What the record holds, for each place the job can stand at.\<close>

fun async_inv :: "tx_ref list \<Rightarrow> job \<Rightarrow> async_event list \<Rightarrow> bool" where
  "async_inv ts (AtLoop rest sofar) log = (ts = sofar @ rest \<and> log = async_plan sofar)"
| "async_inv ts (AwaitRequest t rest sofar) log =
     (ts = sofar @ t # rest \<and> log = async_plan sofar @ [Issued t])"
| "async_inv ts (AwaitSleep rest sofar) log =
     (ts = sofar @ rest \<and> log @ [SleepOver] = async_plan sofar)"
| "async_inv ts (Done (Inr sofar)) log = (ts = sofar \<and> log = async_plan ts)"
| "async_inv ts (Done (Inl e)) log = prefix log (async_plan ts)"

subsection \<open>Example environments\<close>

text \<open>
  Stand-ins for the library functions, used to run the model on concrete inputs: a key
  string is accepted unless it is empty or contains the digit zero (which base 58 does not
  use); a transaction is the list of signatures attached to it.
\<close>

type_synonym demo_tx = "(js_string \<times> bytes) list"

definition demo_libs :: "(js_string, demo_tx) libs" where
  "demo_libs =
     \<lparr>PublicKey_new =
        (\<lambda>a. case a of
           None \<Rightarrow> Inl (JsError ''Invalid public key input'')
         | Some k \<Rightarrow>
             if k = [] \<or> 0x30 \<in> set k then Inl (JsError ''Invalid public key input'')
             else Inr k),
      bs58_decode =
        (\<lambda>a. case a of
           None \<Rightarrow> Inl (JsError ''Expected String'')
         | Some k \<Rightarrow> Inr (map ucast k)),
      addSignature = (\<lambda>tx pk sg. (Inr (), tx @ [(pk, sg)]))\<rparr>"

definition good_account :: js_string where
  "good_account = [0x41, 0x42]"

definition bad_account :: js_string where
  "bad_account = [0x30]"

text \<open>A wallet that behaves: its state is whether it is connected.\<close>

definition honest_wallet :: "(bool, demo_tx) wallet_obj" where
  "honest_wallet =
     \<lparr>isCoin98 = Some True,
      w_isConnected = (\<lambda>c. (c, c)),
      w_connect = (\<lambda>c. (Inr [good_account], True)),
      w_disconnect = (\<lambda>c. (Inr (), False)),
      w_request =
        (\<lambda>req ts c.
           (Inr \<lparr>resp_signature = Some [0x31, 0x32], resp_publicKey = Some good_account,
                 resp_address = Some good_account, resp_msg = None,
                 resp_sig = Some [0x73, 0xD83D, 0xDE00]\<rparr>, c)),
      w_state = False\<rparr>"

text \<open>A wallet that always reports that it is not connected.\<close>

definition offline_wallet :: "(bool, demo_tx) wallet_obj" where
  "offline_wallet = honest_wallet\<lparr>w_isConnected := (\<lambda>c. (False, c))\<rparr>"

text \<open>A wallet that reports not connected, and hands out a malformed account from its
  second connection on.\<close>

definition flaky_wallet :: "(bool, demo_tx) wallet_obj" where
  "flaky_wallet =
     offline_wallet\<lparr>w_connect := (\<lambda>c. (Inr [if c then bad_account else good_account], True))\<rparr>"

text \<open>A wallet whose \<open>disconnect\<close> rejects.\<close>

definition stuck_wallet :: "(bool, demo_tx) wallet_obj" where
  "stuck_wallet =
     honest_wallet\<lparr>w_disconnect := (\<lambda>c. (Inl (JsError ''disconnect failed''), c))\<rparr>"

text \<open>A wallet that rejects every request.\<close>

definition refusing_wallet :: "(bool, demo_tx) wallet_obj" where
  "refusing_wallet =
     honest_wallet\<lparr>w_request :=
       (\<lambda>req ts c. (Inl (JsError ''User rejected the request''), c))\<rparr>"

text \<open>A wallet that looks at the transaction objects: the signature it returns tells
  whether transaction 7 carries a signature already.\<close>

definition observing_wallet :: "(bool, demo_tx) wallet_obj" where
  "observing_wallet =
     honest_wallet\<lparr>w_request :=
       (\<lambda>req ts c.
          (Inr \<lparr>resp_signature = Some (if ts 7 = [] then [0x31] else [0x32]),
                resp_publicKey = Some good_account, resp_address = None,
                resp_msg = None, resp_sig = None\<rparr>, c))\<rparr>"

text \<open>A wallet whose signature string starts with a byte order mark.\<close>

definition bom_wallet :: "(bool, demo_tx) wallet_obj" where
  "bom_wallet =
     honest_wallet\<lparr>w_request :=
       (\<lambda>req ts c.
          (Inr \<lparr>resp_signature = None, resp_publicKey = None, resp_address = None,
                resp_msg = None, resp_sig = Some [0xFEFF, 0x41]\<rparr>, c))\<rparr>"

text \<open>A wallet whose signature string holds a lone surrogate.\<close>

definition lone_surrogate_wallet :: "(bool, demo_tx) wallet_obj" where
  "lone_surrogate_wallet =
     honest_wallet\<lparr>w_request :=
       (\<lambda>req ts c.
          (Inr \<lparr>resp_signature = None, resp_publicKey = None, resp_address = None,
                resp_msg = None, resp_sig = Some [0xD800]\<rparr>, c))\<rparr>"

text \<open>A page where the wallet object \<open>W\<close> is injected as \<open>window.coin98.sol\<close>, with
  a newly constructed adapter; and the same after one call of \<open>connect\<close>.\<close>

definition demo_state ::
  "(bool, demo_tx) wallet_obj \<Rightarrow> (bool, js_string, demo_tx) state" where
  "demo_state W = new_adapter (Some \<lparr>coin98 = Some \<lparr>sol = Some 0\<rparr>\<rparr>) (\<lambda>r. W) (\<lambda>t. [])"

definition after_connect ::
  "(bool, demo_tx) wallet_obj \<Rightarrow> (bool, js_string, demo_tx) state" where
  "after_connect W = snd (connect demo_libs (demo_state W))"

subsection \<open>The outcomes of connect\<close>

text \<open>\<open>connect\<close> returns, or throws one of four error classes.\<close>

fun connect_outcome :: "thrown + unit \<Rightarrow> bool" where
  "connect_outcome (Inr u) = True"
| "connect_outcome (Inl (WalletError WalletNotFoundError)) = True"
| "connect_outcome (Inl (WalletError WalletNotInstalledError)) = True"
| "connect_outcome (Inl (WalletError (WalletAccountError e))) = True"
| "connect_outcome (Inl (WalletError (WalletPublicKeyError e))) = True"
| "connect_outcome (Inl e) = False"

subsection \<open>The invariant of the three fields\<close>

text \<open>Between calls the connecting flag is down, the two other fields are null together,
  and they are set exactly when a \<open>connect\<close> has returned since the latest
  \<open>disconnect\<close>.\<close>

definition fields_inv :: "(call \<times> bool) list \<Rightarrow> ('w, 'pk, 'tx) state \<Rightarrow> bool" where
  "fields_inv h s =
     (priv_connecting s = False \<and>
      (priv_publicKey s = None) = (priv_wallet s = None) \<and>
      (priv_wallet s \<noteq> None) = connected_since_disconnect h)"

section \<open>Properties\<close>

lemmas call_defs = call_isConnected_def call_connect_def call_disconnect_def call_request_def

lemmas adapter_defs = connect_def connect_try_def connected_def connecting_def publicKey_def
  disconnect_def signTransaction_def sign_try_def signMessage_def signAllTransactions_def
  call_defs emit_def sleep_def window_wallet_def new_adapter_def

subsection \<open>What each method does to the three fields\<close>

lemma connected_fields:
  "priv_wallet (snd (connected s)) = priv_wallet s"
  "priv_publicKey (snd (connected s)) = priv_publicKey s"
  "priv_connecting (snd (connected s)) = priv_connecting s"
  "window (snd (connected s)) = window s"
  by (simp_all add: connected_def call_isConnected_def Let_def split: option.splits prod.splits)

lemma connected_value:
  "fst (connected s) =
     (case priv_wallet s of
        None \<Rightarrow> False
      | Some r \<Rightarrow> fst (w_isConnected (wallets s r) (w_state (wallets s r))))"
  by (simp add: connected_def call_isConnected_def Let_def split: option.splits prod.splits)

lemma connect_try_fields:
  "(priv_wallet (snd (connect_try L s)) = priv_wallet s \<and>
    priv_publicKey (snd (connect_try L s)) = priv_publicKey s \<and>
    (fst (connect_try L s) = Inr () \<longrightarrow> fst (connected s) \<or> priv_connecting s))
   \<or> (fst (connect_try L s) = Inr () \<and>
       priv_wallet (snd (connect_try L s)) \<noteq> None \<and>
       priv_publicKey (snd (connect_try L s)) \<noteq> None)"
proof (cases "connected s")
  case (Pair c s1)
  then have f: "priv_wallet s1 = priv_wallet s" "priv_publicKey s1 = priv_publicKey s"
    "priv_connecting s1 = priv_connecting s" "fst (connected s) = c"
    using connected_fields [of s] by simp_all
  show ?thesis
    using f
    by (simp add: connect_try_def Pair connecting_def call_connect_def emit_def Let_def
        split: option.splits prod.splits sum.splits list.splits)
qed

lemma connect_fields:
  "(priv_wallet (snd (connect L s)) = priv_wallet s \<and>
    priv_publicKey (snd (connect L s)) = priv_publicKey s \<and>
    (fst (connect L s) = Inr () \<longrightarrow> fst (connected s) \<or> priv_connecting s))
   \<or> (fst (connect L s) = Inr () \<and>
       priv_wallet (snd (connect L s)) \<noteq> None \<and>
       priv_publicKey (snd (connect L s)) \<noteq> None)"
  using connect_try_fields [of L s]
  by (cases "connect_try L s") (auto simp: connect_def emit_def split: sum.splits)

lemma connect_connecting: "priv_connecting (snd (connect L s)) = False"
  by (simp add: connect_def emit_def split: prod.splits sum.splits)

lemma disconnect_fields:
  "priv_wallet (snd (disconnect s)) = None"
  "priv_publicKey (snd (disconnect s)) = (if priv_wallet s = None then priv_publicKey s else None)"
  "priv_connecting (snd (disconnect s)) = priv_connecting s"
  by (simp_all add: disconnect_def call_disconnect_def emit_def Let_def
      split: option.splits prod.splits sum.splits)

lemma signTransaction_fields:
  "priv_wallet (snd (signTransaction L t s)) = priv_wallet s"
  "priv_publicKey (snd (signTransaction L t s)) = priv_publicKey s"
  "priv_connecting (snd (signTransaction L t s)) = priv_connecting s"
  by (simp_all add: signTransaction_def sign_try_def call_request_def emit_def Let_def
      split: option.splits prod.splits sum.splits)

lemma signAll_loop_fields:
  "priv_wallet (snd (signAll_loop L ts acc s)) = priv_wallet s \<and>
   priv_publicKey (snd (signAll_loop L ts acc s)) = priv_publicKey s \<and>
   priv_connecting (snd (signAll_loop L ts acc s)) = priv_connecting s"
proof (induction ts arbitrary: acc s)
  case Nil
  then show ?case by simp
next
  case (Cons t ts)
  show ?case
  proof (cases "signTransaction L t s")
    case (Pair res s1)
    then have f: "priv_wallet s1 = priv_wallet s" "priv_publicKey s1 = priv_publicKey s"
      "priv_connecting s1 = priv_connecting s"
      using signTransaction_fields [of L t s] by simp_all
    show ?thesis
    proof (cases res)
      case (Inl e)
      with Pair f show ?thesis by simp
    next
      case (Inr t')
      with Pair f Cons.IH [of "acc @ [t']" "sleep None s1"] show ?thesis
        by (simp add: sleep_def)
    qed
  qed
qed

lemma signMessage_fields:
  "priv_wallet (snd (signMessage m s)) = priv_wallet s"
  "priv_publicKey (snd (signMessage m s)) = priv_publicKey s"
  "priv_connecting (snd (signMessage m s)) = priv_connecting s"
  by (simp_all add: signMessage_def call_request_def emit_def Let_def
      split: option.splits prod.splits sum.splits)

lemma returned_simps [simp]:
  "snd (returned p) = snd p"
  "fst (returned p) = (\<exists>v. fst p = Inr v)"
  by (cases p; cases "fst p"; simp add: returned_def)+


lemma run_call_fields:
  "(priv_wallet (snd (run_call L c s)) = priv_wallet s \<and>
    priv_publicKey (snd (run_call L c s)) = priv_publicKey s)
   \<or> (c = CallConnect \<and> fst (run_call L c s) \<and>
       priv_wallet (snd (run_call L c s)) \<noteq> None \<and>
       priv_publicKey (snd (run_call L c s)) \<noteq> None)
   \<or> (c = CallDisconnect \<and>
       priv_wallet (snd (run_call L c s)) = None \<and>
       priv_publicKey (snd (run_call L c s)) = None)"
proof (cases c)
  case CallConnect
  then show ?thesis using connect_fields [of L s] by auto
next
  case CallDisconnect
  then show ?thesis using disconnect_fields [of s] by auto
next
  case (CallSignTransaction t)
  then show ?thesis by (simp add: signTransaction_fields)
next
  case (CallSignAllTransactions ts)
  then show ?thesis by (simp add: signAllTransactions_def signAll_loop_fields)
next
  case (CallSignMessage m)
  then show ?thesis by (simp add: signMessage_fields)
qed

lemma run_call_connecting:
  "priv_connecting s = False \<Longrightarrow> priv_connecting (snd (run_call L c s)) = False"
  by (cases c)
    (simp_all add: connect_connecting disconnect_fields signTransaction_fields
      signAllTransactions_def signAll_loop_fields signMessage_fields)

lemma fields_inv_called:
  assumes "fields_inv h s"
  shows "fields_inv ((c, fst (run_call L c s)) # h) (snd (run_call L c s))"
proof (cases c)
  case CallConnect
  have "fst (connected s) \<Longrightarrow> priv_wallet s \<noteq> None"
    by (auto simp: connected_value split: option.splits)
  then show ?thesis
    using assms connect_fields [of L s] connect_connecting [of L s] CallConnect
    by (auto simp: fields_inv_def)
next
  case CallDisconnect
  then show ?thesis
    using assms by (auto simp: fields_inv_def disconnect_fields)
next
  case (CallSignTransaction t)
  then show ?thesis
    using assms by (simp add: fields_inv_def signTransaction_fields)
next
  case (CallSignAllTransactions ts)
  then show ?thesis
    using assms by (simp add: fields_inv_def signAllTransactions_def signAll_loop_fields)
next
  case (CallSignMessage m)
  then show ?thesis
    using assms by (simp add: fields_inv_def signMessage_fields)
qed

lemma reachable_fields_inv: "reachable L h s \<Longrightarrow> fields_inv h s"
proof (induction rule: reachable.induct)
  case (constructed win ws ts)
  then show ?case by (simp add: fields_inv_def new_adapter_def)
next
  case (called h s c)
  from called.IH show ?case by (rule fields_inv_called)
next
  case (environment h s win ws ts)
  then show ?case by (simp add: fields_inv_def)
qed

text \<open>C4. In every state the adapter can reach, \<open>publicKey\<close> is null exactly when
  \<open>_wallet\<close> is null, and it is non-null exactly when \<open>_wallet\<close> is non-null and a
  call of \<open>connect\<close> has returned since the latest call of \<open>disconnect\<close>. Every
  public method preserves this, and a call that changes either field is a \<open>connect\<close>
  that returned and has set both, or a \<open>disconnect\<close> and has cleared both.\<close>

theorem fields_set_and_cleared_together:
  assumes "reachable L h s"
  shows "(priv_publicKey s = None) = (priv_wallet s = None) \<and>
         (publicKey s \<noteq> None) = (priv_wallet s \<noteq> None \<and> connected_since_disconnect h) \<and>
         (\<forall>c. (priv_publicKey (snd (run_call L c s)) = None)
                = (priv_wallet (snd (run_call L c s)) = None) \<and>
              ((priv_wallet (snd (run_call L c s)) = priv_wallet s \<and>
                priv_publicKey (snd (run_call L c s)) = priv_publicKey s)
               \<or> (c = CallConnect \<and> fst (run_call L c s) \<and>
                   priv_wallet (snd (run_call L c s)) \<noteq> None \<and>
                   priv_publicKey (snd (run_call L c s)) \<noteq> None)
               \<or> (c = CallDisconnect \<and>
                   priv_wallet (snd (run_call L c s)) = None \<and>
                   priv_publicKey (snd (run_call L c s)) = None)))"
proof -
  have inv: "fields_inv h s" using assms by (rule reachable_fields_inv)
  have step: "fields_inv ((c, fst (run_call L c s)) # h) (snd (run_call L c s))" for c
    using inv by (rule fields_inv_called)
  show ?thesis
    using inv step run_call_fields [of L _ s]
    by (simp add: fields_inv_def publicKey_def)
qed

theorem fields_set_and_cleared_together_witness:
  "reachable demo_libs [(CallDisconnect, True), (CallConnect, True)]
     (snd (disconnect (after_connect honest_wallet))) \<and>
   publicKey (after_connect honest_wallet) = Some good_account \<and>
   priv_wallet (after_connect honest_wallet) = Some 0 \<and>
   publicKey (snd (disconnect (after_connect honest_wallet))) = None \<and>
   priv_wallet (snd (disconnect (after_connect honest_wallet))) = None"
proof -
  have r1: "reachable demo_libs [(CallConnect, True)] (after_connect honest_wallet)"
    using reachable.called [OF reachable.constructed, of demo_libs CallConnect
        "Some \<lparr>coin98 = Some \<lparr>sol = Some 0\<rparr>\<rparr>" "\<lambda>r. honest_wallet" "\<lambda>t. []"]
    by (simp add: adapter_defs demo_libs_def good_account_def honest_wallet_def
        demo_state_def after_connect_def)
  have r2: "reachable demo_libs [(CallDisconnect, True), (CallConnect, True)]
     (snd (disconnect (after_connect honest_wallet)))"
    using reachable.called [OF r1, of CallDisconnect]
    by (simp add: adapter_defs demo_libs_def good_account_def honest_wallet_def
        demo_state_def after_connect_def)
  show ?thesis
    using r2 fields_set_and_cleared_together [OF r1] fields_set_and_cleared_together [OF r2]
    by (simp add: adapter_defs demo_libs_def good_account_def honest_wallet_def
        demo_state_def after_connect_def)
qed

subsection \<open>What connect adds to the trace\<close>

lemma connected_trace:
  "trace (snd (connected s)) =
     trace s @ (case priv_wallet s of None \<Rightarrow> [] | Some r \<Rightarrow> [Call r IsConnected])"
  by (simp add: connected_def call_isConnected_def Let_def split: option.splits prod.splits)

lemma connect_try_outcome: "connect_outcome (fst (connect_try L s))"
  by (simp add: connect_try_def call_connect_def Let_def
      split: option.splits prod.splits sum.splits list.splits)

lemma connect_try_connect_calls:
  "wallet_connect_calls (trace (snd (connect_try L s))) \<le> wallet_connect_calls (trace s) + 1"
proof (cases "connected s")
  case (Pair c s1)
  then have "trace s1 = trace s @ (case priv_wallet s of None \<Rightarrow> [] | Some r \<Rightarrow> [Call r IsConnected])"
    using connected_trace [of s] by simp
  then have "wallet_connect_calls (trace s1) = wallet_connect_calls (trace s)"
    by (simp add: wallet_connect_calls_def split: option.splits)
  then show ?thesis
    by (simp add: connect_try_def Pair call_connect_def emit_def Let_def wallet_connect_calls_def
        split: option.splits prod.splits sum.splits list.splits)
qed

lemma connect_connect_calls:
  "wallet_connect_calls (trace (snd (connect L s))) \<le> wallet_connect_calls (trace s) + 1"
  using connect_try_connect_calls [of L s]
  by (cases "connect_try L s")
    (auto simp: connect_def emit_def wallet_connect_calls_def split: sum.splits)

text \<open>C9. Whatever path a call of \<open>connect\<close> takes (it returns, at once or after
  connecting, or it throws one of \<open>WalletNotFoundError\<close>,
  \<open>WalletNotInstalledError\<close>, \<open>WalletAccountError\<close> and
  \<open>WalletPublicKeyError\<close>, and there is no other outcome), the \<open>finally\<close>
  block has cleared the connecting flag when the call exits.\<close>

theorem connect_clears_connecting:
  "connecting (snd (connect L s)) = False \<and> connect_outcome (fst (connect L s))"
  using connect_try_outcome [of L s]
  by (cases "connect_try L s")
     (auto simp: connect_def connecting_def emit_def split: sum.splits)

subsection \<open>Connecting twice\<close>

text \<open>C3, as stated, fails: \<open>connect\<close> asks the wallet whether it is connected, and
  a wallet that answers no is connected to again. Here both calls return and the wallet's
  \<open>connect\<close> has run twice.\<close>

theorem second_connect_connects_again:
  "fst (connect demo_libs (demo_state offline_wallet)) = Inr () \<and>
   fst (connect demo_libs (after_connect offline_wallet)) = Inr () \<and>
   wallet_connect_calls (trace (snd (connect demo_libs (after_connect offline_wallet)))) = 2"
  by (simp add: adapter_defs demo_libs_def good_account_def honest_wallet_def
      demo_state_def after_connect_def offline_wallet_def wallet_connect_calls_def)

text \<open>C3, amended. When the adapter holds the wallet handle that a call of
  \<open>connect\<close> leaves behind, and the wallet answers \<open>isConnected()\<close> with true,
  a second call of \<open>connect\<close> returns without doing anything but that question: the
  wallet's \<open>connect\<close> has run at most once over the two calls, and the handle and
  the public key are as the first call left them.\<close>

theorem second_connect_noop:
  assumes "priv_wallet (snd (connect L s)) = Some r"
    and "fst (w_isConnected (wallets (snd (connect L s)) r)
               (w_state (wallets (snd (connect L s)) r)))"
  shows "fst (connect L (snd (connect L s))) = Inr () \<and>
         wallet_connect_calls (trace (snd (connect L (snd (connect L s)))))
           \<le> wallet_connect_calls (trace s) + 1 \<and>
         trace (snd (connect L (snd (connect L s))))
           = trace (snd (connect L s)) @ [Call r IsConnected] \<and>
         priv_wallet (snd (connect L (snd (connect L s)))) = Some r \<and>
         publicKey (snd (connect L (snd (connect L s)))) = publicKey (snd (connect L s))"
proof -
  define s1 where "s1 = snd (connect L s)"
  have w: "priv_wallet s1 = Some r"
    and c: "fst (w_isConnected (wallets s1 r) (w_state (wallets s1 r)))"
    using assms by (simp_all add: s1_def)
  have "fst (connected s1)" using w c by (simp add: connected_value)
  then obtain s2 where s2: "connected s1 = (True, s2)" by (cases "connected s1") simp
  then have t: "trace s2 = trace s1 @ [Call r IsConnected]"
    and f: "priv_wallet s2 = Some r" "priv_publicKey s2 = priv_publicKey s1"
    using connected_trace [of s1] connected_fields [of s1] w by simp_all
  have again: "connect L s1 = (Inr (), s2\<lparr>priv_connecting := False\<rparr>)"
    by (simp add: connect_def connect_try_def s2)
  have "wallet_connect_calls (trace s2) = wallet_connect_calls (trace s1)"
    by (simp add: t wallet_connect_calls_def)
  then show ?thesis
    using connect_connect_calls [of L s] again t f
    by (simp add: s1_def [symmetric] publicKey_def)
qed

theorem second_connect_noop_witness:
  "priv_wallet (after_connect honest_wallet) = Some 0 \<and>
   fst (connected (after_connect honest_wallet)) = True \<and>
   fst (connect demo_libs (after_connect honest_wallet)) = Inr () \<and>
   wallet_connect_calls (trace (snd (connect demo_libs (after_connect honest_wallet)))) = 1 \<and>
   trace (snd (connect demo_libs (after_connect honest_wallet)))
     = [Call 0 WConnect, Emit Connect, Call 0 IsConnected]"
  using second_connect_noop [of demo_libs "demo_state honest_wallet" 0]
  by (simp add: adapter_defs demo_libs_def good_account_def honest_wallet_def
      demo_state_def after_connect_def wallet_connect_calls_def)

subsection \<open>Errors of the methods that catch\<close>

lemma connect_error_emitted:
  assumes "fst (connect L s) = Inl e"
  shows "(\<exists>k. e = WalletError k) \<and> last (trace (snd (connect L s))) = Emit (Error e)"
proof (cases "connect_try L s")
  case (Pair res s1)
  with assms have res: "res = Inl e" and s': "snd (connect L s) = (emit (Error e) s1)\<lparr>priv_connecting := False\<rparr>"
    by (auto simp: connect_def split: sum.splits)
  have "connect_outcome (Inl e)" using connect_try_outcome [of L s] Pair res by simp
  then have "\<exists>k. e = WalletError k" by (cases e) simp_all
  then show ?thesis by (simp add: s' emit_def)
qed

lemma signTransaction_error_emitted:
  assumes "fst (signTransaction L t s) = Inl e"
  shows "(\<exists>k. e = WalletError k) \<and> last (trace (snd (signTransaction L t s))) = Emit (Error e)"
  using assms
  by (auto simp: signTransaction_def emit_def split: option.splits prod.splits sum.splits)

lemma signAll_loop_error_emitted:
  "fst (signAll_loop L ts acc s) = Inl e \<Longrightarrow>
   (\<exists>k. e = WalletError k) \<and> last (trace (snd (signAll_loop L ts acc s))) = Emit (Error e)"
proof (induction ts arbitrary: acc s)
  case Nil
  then show ?case by simp
next
  case (Cons t ts)
  show ?case
  proof (cases "signTransaction L t s")
    case (Pair res s1)
    show ?thesis
    proof (cases res)
      case (Inl e')
      with Pair Cons.prems signTransaction_error_emitted [of L t s e'] show ?thesis by simp
    next
      case (Inr t')
      with Pair Cons.prems Cons.IH [of "acc @ [t']" "sleep None s1"] show ?thesis by simp
    qed
  qed
qed

lemma signMessage_error_emitted:
  assumes "fst (signMessage m s) = Inl e"
  shows "(\<exists>k. e = WalletError k) \<and> last (trace (snd (signMessage m s))) = Emit (Error e)"
  using assms
  by (auto simp: signMessage_def emit_def Let_def split: option.splits prod.splits sum.splits)

subsection \<open>disconnect\<close>

lemma disconnect_resolved:
  assumes "priv_wallet s = Some r"
    and "fst (w_disconnect (wallets s r) (w_state (wallets s r))) = Inr u"
  shows "fst (disconnect s) = Inr () \<and>
         trace (snd (disconnect s)) = trace s @ [Call r WDisconnect, Emit Disconnect]"
  using assms
  by (cases "w_disconnect (wallets s r) (w_state (wallets s r))")
    (simp add: disconnect_def call_disconnect_def emit_def Let_def)

lemma disconnect_never_connected:
  assumes "priv_wallet s = None"
  shows "fst (disconnect s) = Inr () \<and> trace (snd (disconnect s)) = trace s @ [Emit Disconnect]"
  using assms by (simp add: disconnect_def emit_def)

lemma disconnect_rejected:
  assumes "priv_wallet s = Some r"
    and "fst (w_disconnect (wallets s r) (w_state (wallets s r))) = Inl e"
  shows "fst (disconnect s) = Inl (Underlying e) \<and>
         trace (snd (disconnect s)) = trace s @ [Call r WDisconnect]"
  using assms
  by (cases "w_disconnect (wallets s r) (w_state (wallets s r))")
    (simp add: disconnect_def call_disconnect_def emit_def Let_def)

text \<open>The stored public key is cleared whatever the wallet does.\<close>

lemma disconnect_clears_publicKey:
  assumes "reachable L h s"
  shows "publicKey (snd (disconnect s)) = None \<and> priv_wallet (snd (disconnect s)) = None"
  using reachable_fields_inv [OF assms]
  by (simp add: fields_inv_def publicKey_def disconnect_fields)

text \<open>C1. Every public method is to catch a failure of an underlying call, wrap it in
  the matching error class, emit it as an \<open>error\<close> event and rethrow it.
  \<open>connect\<close>, \<open>signTransaction\<close>, \<open>signAllTransactions\<close> and
  \<open>signMessage\<close> do (the four lemmas above). \<open>disconnect\<close> does not, having no
  \<open>try\<close>: after a connection to a wallet whose \<open>disconnect\<close> rejects, the
  rejection reaches the caller as the wallet threw it, and the trace of the whole session
  holds no \<open>error\<close> event.\<close>

theorem disconnect_rejection_not_wrapped:
  "fst (w_disconnect stuck_wallet True) = Inl (JsError ''disconnect failed'') \<and>
   fst (disconnect (after_connect stuck_wallet)) = Inl (Underlying (JsError ''disconnect failed'')) \<and>
   trace (snd (disconnect (after_connect stuck_wallet)))
     = [Call 0 WConnect, Emit Connect, Call 0 WDisconnect]"
  by (simp add: adapter_defs demo_libs_def good_account_def honest_wallet_def
      demo_state_def after_connect_def stuck_wallet_def)

text \<open>C2. \<open>disconnect\<close> is to clear \<open>publicKey\<close> and emit a
  \<open>disconnect\<close> event whatever the state and whatever the wallet's own
  \<open>disconnect\<close> does. It does both when no handle is stored and when the wallet's
  \<open>disconnect\<close> resolves (lemmas above). On the input of C1 it has cleared
  \<open>publicKey\<close>, but all it added to the trace is the call of the wallet's
  \<open>disconnect\<close>: the \<open>disconnect\<close> event after the \<open>await\<close> is never
  emitted.\<close>

theorem disconnect_rejection_no_event:
  "publicKey (after_connect stuck_wallet) = Some good_account \<and>
   publicKey (snd (disconnect (after_connect stuck_wallet))) = None \<and>
   added (after_connect stuck_wallet) (snd (disconnect (after_connect stuck_wallet)))
     = [Call 0 WDisconnect]"
  by (simp add: adapter_defs demo_libs_def good_account_def honest_wallet_def
      demo_state_def after_connect_def stuck_wallet_def added_def)

subsection \<open>A malformed account\<close>

text \<open>C5, as stated, fails: a failed \<open>connect\<close> does not touch \<open>_publicKey\<close>.
  An adapter that connected earlier, whose wallet now reports that it is not connected and
  hands out a malformed account, throws \<open>WalletPublicKeyError\<close> and still has the
  earlier public key.\<close>

theorem failed_reconnect_keeps_publicKey:
  "fst (w_connect flaky_wallet True) = Inr [bad_account] \<and>
   PublicKey_new demo_libs (Some bad_account) = Inl (JsError ''Invalid public key input'') \<and>
   fst (connect demo_libs (after_connect flaky_wallet))
     = Inl (WalletError (WalletPublicKeyError (JsError ''Invalid public key input''))) \<and>
   publicKey (snd (connect demo_libs (after_connect flaky_wallet))) = Some good_account"
  by (simp add: adapter_defs demo_libs_def good_account_def honest_wallet_def
      demo_state_def after_connect_def offline_wallet_def
      flaky_wallet_def bad_account_def)

text \<open>C5, amended. When \<open>connect\<close> gets as far as the wallet's \<open>connect\<close> (the
  adapter is neither connected nor connecting and the Coin98 wallet is injected) and the
  first account of the list the wallet returns is not a valid public key, \<open>connect\<close>
  throws \<open>WalletPublicKeyError\<close>, emits it, and leaves \<open>publicKey\<close> and
  \<open>_wallet\<close> as they were before the call: null when they were null.\<close>

theorem connect_malformed_account:
  assumes "fst (connected s) = False" and "connecting s = False"
    and "window_wallet s = Some r"
    and "wallets (snd (connected s)) r = W"
    and "isCoin98 W = Some True"
    and "fst (w_connect W (w_state W)) = Inr (a # as)"
    and "PublicKey_new L (Some a) = Inl e"
  shows "fst (connect L s) = Inl (WalletError (WalletPublicKeyError e)) \<and>
         publicKey (snd (connect L s)) = publicKey s \<and>
         priv_wallet (snd (connect L s)) = priv_wallet s \<and>
         last (trace (snd (connect L s))) = Emit (Error (WalletError (WalletPublicKeyError e)))"
proof (cases "connected s")
  case (Pair c s1)
  then have f: "c = False" "priv_wallet s1 = priv_wallet s" "priv_publicKey s1 = priv_publicKey s"
    "priv_connecting s1 = False" "window s1 = window s" "wallets s1 r = W"
    using assms(1,2,4) connected_fields [of s] by (simp_all add: connecting_def)
  have w: "window_wallet (s1\<lparr>priv_connecting := True\<rparr>) = Some r"
    using assms(3) f(5) by (simp add: window_wallet_def)
  obtain st where c: "w_connect W (w_state W) = (Inr (a # as), st)"
    using assms(6) by (cases "w_connect W (w_state W)") simp
  show ?thesis
    using f w c assms(5,7)
    by (simp add: connect_def connect_try_def Pair connecting_def publicKey_def
        call_connect_def emit_def Let_def)
qed

theorem connect_malformed_account_witness:
  "fst (connect demo_libs (demo_state (flaky_wallet\<lparr>w_state := True\<rparr>)))
     = Inl (WalletError (WalletPublicKeyError (JsError ''Invalid public key input''))) \<and>
   publicKey (demo_state (flaky_wallet\<lparr>w_state := True\<rparr>)) = None \<and>
   publicKey (snd (connect demo_libs (demo_state (flaky_wallet\<lparr>w_state := True\<rparr>)))) = None"
  using connect_malformed_account [of "demo_state (flaky_wallet\<lparr>w_state := True\<rparr>)" 0
      "flaky_wallet\<lparr>w_state := True\<rparr>" bad_account "[]" demo_libs
      "JsError ''Invalid public key input''"]
  by (simp add: adapter_defs demo_libs_def good_account_def honest_wallet_def
      demo_state_def after_connect_def offline_wallet_def
      flaky_wallet_def bad_account_def)

subsection \<open>Signing without a connection\<close>

text \<open>C6. With no wallet handle stored, \<open>signTransaction\<close> throws
  \<open>WalletNotConnectedError\<close>; the only effect is the \<open>error\<close> event: no wallet
  object is called or changed, and no transaction is touched.\<close>

theorem signTransaction_not_connected:
  assumes "priv_wallet s = None"
  shows "fst (signTransaction L t s) = Inl (WalletError WalletNotConnectedError) \<and>
         trace (snd (signTransaction L t s))
           = trace s @ [Emit (Error (WalletError WalletNotConnectedError))] \<and>
         wallets (snd (signTransaction L t s)) = wallets s \<and>
         txs (snd (signTransaction L t s)) = txs s"
  using assms by (simp add: signTransaction_def emit_def)

theorem signTransaction_not_connected_witness:
  "priv_wallet (demo_state honest_wallet) = None \<and>
   fst (signTransaction demo_libs 1 (demo_state honest_wallet))
     = Inl (WalletError WalletNotConnectedError) \<and>
   trace (snd (signTransaction demo_libs 1 (demo_state honest_wallet)))
     = [Emit (Error (WalletError WalletNotConnectedError))]"
  using signTransaction_not_connected [of "demo_state honest_wallet" demo_libs 1]
  by (simp add: demo_state_def new_adapter_def)

subsection \<open>The connected getter\<close>

text \<open>C10. \<open>connected\<close> is false without a stored handle and otherwise whatever the
  wallet's \<open>isConnected()\<close> answers. It is no function of the adapter's fields: after a
  successful \<open>connect\<close> to a wallet that answers no, \<open>publicKey\<close> is set and
  \<open>connected\<close> is false, while with the same three fields and a wallet that answers
  yes it is true.\<close>

theorem connected_is_the_wallets_answer:
  "fst (connected s) =
     (case priv_wallet s of
        None \<Rightarrow> False
      | Some r \<Rightarrow> fst (w_isConnected (wallets s r) (w_state (wallets s r)))) \<and>
   (publicKey (after_connect offline_wallet) = Some good_account \<and>
    fst (connected (after_connect offline_wallet)) = False) \<and>
   (publicKey (after_connect honest_wallet) = publicKey (after_connect offline_wallet) \<and>
    priv_wallet (after_connect honest_wallet) = priv_wallet (after_connect offline_wallet) \<and>
    connecting (after_connect honest_wallet) = connecting (after_connect offline_wallet) \<and>
    fst (connected (after_connect honest_wallet)) = True)"
proof -
  have "publicKey (after_connect offline_wallet) = Some good_account"
    "fst (connected (after_connect offline_wallet)) = False"
    "publicKey (after_connect honest_wallet) = Some good_account"
    "priv_wallet (after_connect honest_wallet) = priv_wallet (after_connect offline_wallet)"
    "connecting (after_connect honest_wallet) = connecting (after_connect offline_wallet)"
    "fst (connected (after_connect honest_wallet)) = True"
    by (simp_all add: adapter_defs demo_libs_def good_account_def honest_wallet_def
        demo_state_def after_connect_def offline_wallet_def)
  then show ?thesis by (simp add: connected_value)
qed

subsection \<open>Signing a list of transactions\<close>

lemma sign_steps_append: "sign_steps (xs @ ys) = sign_steps xs @ sign_steps ys"
  by (induction xs rule: sign_steps.induct) (simp_all split: list.splits param.splits)

lemma signTransaction_trace:
  "\<exists>es. trace (snd (signTransaction L t s)) = trace s @ es \<and>
        sign_steps es = (case priv_wallet s of None \<Rightarrow> [] | Some r \<Rightarrow> [Inl t])"
  by (simp add: signTransaction_def sign_try_def call_request_def emit_def Let_def
      split: option.splits prod.splits sum.splits)

lemma signTransaction_returns:
  "fst (signTransaction L t s) = Inr t' \<Longrightarrow> t' = t \<and> priv_wallet s \<noteq> None"
  by (auto simp: signTransaction_def sign_try_def call_request_def emit_def Let_def
      split: option.splits prod.splits sum.splits)

lemma signAll_loop_steps:
  "\<exists>es. trace (snd (signAll_loop L ts acc s)) = trace s @ es \<and>
        prefix (sign_steps es) (sign_plan ts) \<and>
        (\<forall>signed. fst (signAll_loop L ts acc s) = Inr signed \<longrightarrow>
           signed = acc @ ts \<and> sign_steps es = sign_plan ts)"
proof (induction ts arbitrary: acc s)
  case Nil
  then show ?case by simp
next
  case (Cons t ts)
  obtain res s1 where st: "signTransaction L t s = (res, s1)"
    by (cases "signTransaction L t s")
  obtain es1 where es1: "trace s1 = trace s @ es1"
    "sign_steps es1 = (case priv_wallet s of None \<Rightarrow> [] | Some r \<Rightarrow> [Inl t])"
    using signTransaction_trace [of L t s] st by auto
  show ?case
  proof (cases res)
    case (Inl e)
    have "prefix (sign_steps es1) (Inl t # Inr 500 # sign_plan ts)"
      by (simp add: es1 split: option.splits)
    with st Inl es1 show ?thesis by simp
  next
    case (Inr t')
    then have t': "t' = t" and w: "priv_wallet s \<noteq> None"
      using signTransaction_returns [of L t s t'] st by simp_all
    define s2 where "s2 = sleep None s1"
    have s2: "trace s2 = trace s @ es1 @ [Sleep 500]"
      by (simp add: s2_def sleep_def es1)
    obtain es2 where es2: "trace (snd (signAll_loop L ts (acc @ [t]) s2)) = trace s2 @ es2"
      "prefix (sign_steps es2) (sign_plan ts)"
      "\<And>signed. fst (signAll_loop L ts (acc @ [t]) s2) = Inr signed \<Longrightarrow>
          signed = (acc @ [t]) @ ts \<and> sign_steps es2 = sign_plan ts"
      using Cons.IH [of "acc @ [t]" s2] by blast
    have loop: "signAll_loop L (t # ts) acc s = signAll_loop L ts (acc @ [t]) s2"
      by (simp add: st Inr t' s2_def)
    have steps: "sign_steps (es1 @ Sleep 500 # es2) = Inl t # Inr 500 # sign_steps es2"
      using w by (auto simp: sign_steps_append es1)
    show ?thesis
    proof (intro exI [of _ "es1 @ Sleep 500 # es2"] conjI allI impI)
      show "trace (snd (signAll_loop L (t # ts) acc s)) = trace s @ es1 @ Sleep 500 # es2"
        unfolding loop by (simp add: es2(1) s2)
      show "prefix (sign_steps (es1 @ Sleep 500 # es2)) (sign_plan (t # ts))"
        using es2(2) by (simp add: steps)
    next
      fix signed
      assume "fst (signAll_loop L (t # ts) acc s) = Inr signed"
      then have "fst (signAll_loop L ts (acc @ [t]) s2) = Inr signed"
        unfolding loop .
      then have "signed = (acc @ [t]) @ ts \<and> sign_steps es2 = sign_plan ts"
        by (rule es2(3))
      then show "signed = acc @ t # ts" "sign_steps (es1 @ Sleep 500 # es2) = sign_plan (t # ts)"
        by (simp_all add: steps)
    qed
  qed
qed

text \<open>The code against the specification: with a wallet handle, \<open>signTransaction\<close>
  returns the transaction it was given in exactly the state the specification describes,
  and throws \<open>WalletSignTransactionError\<close> when the specification has no result; the
  loop does the same for the list.\<close>

lemma spec_sign_one_signTransaction:
  assumes "priv_wallet s = Some r"
  shows "case spec_sign_one L r t s of
           Some s1 \<Rightarrow> signTransaction L t s = (Inr t, s1) \<and>
                      priv_wallet s1 = Some r \<and>
                      trace s1 = trace s @ [Call r (Request \<lparr>method_name = ''sol_sign'',
                                                              params = [PTx t]\<rparr>)]
         | None \<Rightarrow> \<exists>e. fst (signTransaction L t s)
                          = Inl (WalletError (WalletSignTransactionError e))"
  using assms
  by (auto simp: spec_sign_one_def signTransaction_def sign_try_def call_request_def Let_def
      split: prod.splits sum.splits)

lemma spec_sign_in_turn_loop:
  assumes "priv_wallet s = Some r"
  shows "case spec_sign_in_turn L r ts s of
           Some s' \<Rightarrow> signAll_loop L ts acc s = (Inr (acc @ ts), s') \<and>
                      trace s' = trace s @ sign_effects r ts
         | None \<Rightarrow> \<exists>e. fst (signAll_loop L ts acc s)
                          = Inl (WalletError (WalletSignTransactionError e))"
  using assms
proof (induction ts arbitrary: acc s)
  case Nil
  then show ?case by simp
next
  case (Cons t ts)
  show ?case
  proof (cases "spec_sign_one L r t s")
    case None
    then show ?thesis
      using spec_sign_one_signTransaction [OF Cons.prems, of L t]
      by (auto split: prod.splits sum.splits)
  next
    case (Some s1)
    then have st: "signTransaction L t s = (Inr t, s1)" and w: "priv_wallet s1 = Some r"
      and tr: "trace s1 = trace s @ [Call r (Request \<lparr>method_name = ''sol_sign'',
                                                        params = [PTx t]\<rparr>)]"
      using spec_sign_one_signTransaction [OF Cons.prems, of L t] by simp_all
    define s2 where "s2 = s1\<lparr>trace := trace s1 @ [Sleep 500]\<rparr>"
    have s2: "sleep None s1 = s2" "priv_wallet s2 = Some r"
      "trace s2 = trace s @ [Call r (Request \<lparr>method_name = ''sol_sign'',
                                              params = [PTx t]\<rparr>), Sleep 500]"
      by (simp_all add: s2_def sleep_def w tr)
    have loop: "signAll_loop L (t # ts) acc s = signAll_loop L ts (acc @ [t]) s2"
      by (simp add: st s2(1))
    have spec: "spec_sign_in_turn L r (t # ts) s = spec_sign_in_turn L r ts s2"
      by (simp add: Some s2_def)
    show ?thesis
      unfolding loop spec
      using Cons.IH [OF s2(2), of "acc @ [t]"]
      by (auto simp: s2(3) split: option.splits)
  qed
qed


text \<open>The method as a function of the state, against the specification.\<close>

lemma signAllTransactions_atomic:
  "prefix (sign_steps (added s (snd (signAllTransactions L transactions s))))
      (sign_plan transactions) \<and>
   (\<forall>signed. fst (signAllTransactions L transactions s) = Inr signed \<longrightarrow>
      signed = transactions \<and>
      sign_steps (added s (snd (signAllTransactions L transactions s)))
        = sign_plan transactions) \<and>
   (\<forall>r. priv_wallet s = Some r \<longrightarrow>
      (case spec_sign_in_turn L r transactions s of
         Some s' \<Rightarrow>
           signAllTransactions L transactions s = (Inr transactions, s') \<and>
           added s s' = sign_effects r transactions
       | None \<Rightarrow>
           (\<exists>e. fst (signAllTransactions L transactions s)
                  = Inl (WalletError (WalletSignTransactionError e)) \<and>
                last (trace (snd (signAllTransactions L transactions s)))
                  = Emit (Error (WalletError (WalletSignTransactionError e)))))) \<and>
   (priv_wallet s = None \<longrightarrow>
      (case transactions of
         [] \<Rightarrow> fst (signAllTransactions L transactions s) = Inr [] \<and>
               added s (snd (signAllTransactions L transactions s)) = []
       | t # ts \<Rightarrow>
           fst (signAllTransactions L transactions s)
             = Inl (WalletError WalletNotConnectedError) \<and>
           added s (snd (signAllTransactions L transactions s))
             = [Emit (Error (WalletError WalletNotConnectedError))]))"
proof (intro conjI allI impI)
  obtain es where es: "trace (snd (signAll_loop L transactions [] s)) = trace s @ es"
    "prefix (sign_steps es) (sign_plan transactions)"
    "\<And>signed. fst (signAll_loop L transactions [] s) = Inr signed \<Longrightarrow>
        signed = [] @ transactions \<and> sign_steps es = sign_plan transactions"
    using signAll_loop_steps [of L transactions "[]" s] by blast
  have a: "added s (snd (signAllTransactions L transactions s)) = es"
    by (simp add: added_def signAllTransactions_def es(1))
  have a': "added s (snd (signAll_loop L transactions [] s)) = es"
    by (simp add: added_def es(1))
  show "prefix (sign_steps (added s (snd (signAllTransactions L transactions s))))
      (sign_plan transactions)"
    using es(2) by (simp add: a)
  fix signed
  assume r: "fst (signAllTransactions L transactions s) = Inr signed"
  then show "signed = transactions"
    using es(3) [of signed] by (simp add: signAllTransactions_def)
  show "sign_steps (added s (snd (signAllTransactions L transactions s)))
        = sign_plan transactions"
    using es(3) [of signed] r by (simp add: a' signAllTransactions_def)
next
  fix r
  assume w: "priv_wallet s = Some r"
  show "case spec_sign_in_turn L r transactions s of
         Some s' \<Rightarrow>
           signAllTransactions L transactions s = (Inr transactions, s') \<and>
           added s s' = sign_effects r transactions
       | None \<Rightarrow>
           (\<exists>e. fst (signAllTransactions L transactions s)
                  = Inl (WalletError (WalletSignTransactionError e)) \<and>
                last (trace (snd (signAllTransactions L transactions s)))
                  = Emit (Error (WalletError (WalletSignTransactionError e))))"
  proof (cases "spec_sign_in_turn L r transactions s")
    case None
    then obtain e where "fst (signAll_loop L transactions [] s)
        = Inl (WalletError (WalletSignTransactionError e))"
      using spec_sign_in_turn_loop [OF w, of L transactions "[]"] by auto
    then show ?thesis
      using signAll_loop_error_emitted [of L transactions "[]" s] None
      by (auto simp: signAllTransactions_def)
  next
    case (Some s')
    then show ?thesis
      using spec_sign_in_turn_loop [OF w, of L transactions "[]"]
      by (simp add: signAllTransactions_def added_def)
  qed
next
  assume w: "priv_wallet s = None"
  show "case transactions of
         [] \<Rightarrow> fst (signAllTransactions L transactions s) = Inr [] \<and>
               added s (snd (signAllTransactions L transactions s)) = []
       | t # ts \<Rightarrow>
           fst (signAllTransactions L transactions s)
             = Inl (WalletError WalletNotConnectedError) \<and>
           added s (snd (signAllTransactions L transactions s))
             = [Emit (Error (WalletError WalletNotConnectedError))]"
    using w
    by (cases transactions)
      (simp_all add: signAllTransactions_def signTransaction_def emit_def added_def)
qed

text \<open>The method as a job: the order of its steps in every run, and the run that the
  function describes.\<close>

lemma async_plan_append: "async_plan (xs @ ys) = async_plan xs @ async_plan ys"
  by (induction xs) simp_all

lemma after_request_returns: "after_request L t outcome s = (Inr t', s1) \<Longrightarrow> t' = t"
  by (auto simp: after_request_def split: sum.splits prod.splits)

lemma async_inv_prefix: "async_inv ts job log \<Longrightarrow> prefix log (async_plan ts)"
proof (cases job)
  case (AtLoop rest sofar)
  assume "async_inv ts job log"
  with AtLoop show ?thesis by (simp add: async_plan_append)
next
  case (AwaitRequest t rest sofar)
  assume "async_inv ts job log"
  with AwaitRequest show ?thesis by (simp add: async_plan_append)
next
  case (AwaitSleep rest sofar)
  assume "async_inv ts job log"
  with AwaitSleep have "ts = sofar @ rest" "log @ [SleepOver] = async_plan sofar" by simp_all
  then have "async_plan ts = log @ SleepOver # async_plan rest"
    by (simp add: async_plan_append flip: append_assoc)
  then show ?thesis by simp
next
  case (Done res)
  assume "async_inv ts job log"
  with Done show ?thesis by (cases res) simp_all
qed

lemma async_step_inv:
  assumes "async_step L (job, s, log) (job', s', log')" and "async_inv ts job log"
  shows "async_inv ts job' log'"
  using assms
  by (auto elim!: async_step.cases simp: async_plan_append dest: after_request_returns)

lemma async_run_inv:
  assumes "async_run L c c'" and "async_inv ts (fst c) (snd (snd c))"
  shows "async_inv ts (fst c') (snd (snd c'))"
  using assms
proof (induction rule: async_run.induct)
  case (start c)
  then show ?case .
next
  case (step c c' c'')
  then have "async_inv ts (fst c') (snd (snd c'))" by simp
  moreover have "async_step L (fst c', fst (snd c'), snd (snd c')) (fst c'', fst (snd c''), snd (snd c''))"
    using step.hyps(2) by simp
  ultimately show ?case by (rule async_step_inv [rotated])
qed


lemma async_run_ordered:
  assumes "async_run L (AtLoop ts [], s, []) (job, s', log)"
  shows "prefix log (async_plan ts) \<and>
         (\<forall>sofar. job = Done (Inr sofar) \<longrightarrow> sofar = ts \<and> log = async_plan ts)"
proof -
  have "async_inv ts job log"
    using async_run_inv [OF assms, of ts] by simp
  then show ?thesis
    using async_inv_prefix [of ts job log] by auto
qed

lemma async_run_trans:
  assumes "async_run L a b" and "async_run L b c"
  shows "async_run L a c"
  using assms(2) assms(1)
  by (induction rule: async_run.induct) (auto intro: async_run.step)

lemma signTransaction_after_request:
  assumes "priv_wallet s = Some r"
  shows "signTransaction L t s =
           after_request L t
             (fst (call_request r \<lparr>method_name = ''sol_sign'', params = [PTx t]\<rparr> s))
             (snd (call_request r \<lparr>method_name = ''sol_sign'', params = [PTx t]\<rparr> s))"
  using assms
  by (cases "call_request r \<lparr>method_name = ''sol_sign'', params = [PTx t]\<rparr> s")
    (simp add: signTransaction_def sign_try_def after_request_def emit_def
      split: sum.splits prod.splits)

lemma call_request_trace:
  "trace (snd (call_request r req s)) = trace s @ [Call r (Request req)]"
  by (simp add: call_request_def Let_def split: prod.splits)

lemma async_run_signAll_loop:
  "\<exists>log'. async_run L (AtLoop ts acc, s, log)
             (Done (fst (signAll_loop L ts acc s)), snd (signAll_loop L ts acc s), log')"
proof (induction ts arbitrary: acc s log)
  case Nil
  have "async_run L (AtLoop [] acc, s, log) (Done (Inr acc), s, log)"
    by (rule async_run.step [OF async_run.start async_step.finish])
  then show ?case by auto
next
  case (Cons t ts)
  show ?case
  proof (cases "priv_wallet s")
    case None
    have "async_run L (AtLoop (t # ts) acc, s, log)
            (Done (Inl (WalletError WalletNotConnectedError)),
             emit (Error (WalletError WalletNotConnectedError)) s, log)"
      by (rule async_run.step [OF async_run.start async_step.no_handle [OF None]])
    then show ?thesis
      using None by (auto simp: signTransaction_def)
  next
    case (Some r)
    define req where "req = \<lparr>method_name = ''sol_sign'', params = [PTx t]\<rparr>"
    define s1 where "s1 = snd (call_request r req s)"
    define outcome where "outcome = fst (call_request r req s)"
    have st: "signTransaction L t s = after_request L t outcome s1"
      using signTransaction_after_request [OF Some, of L t]
      by (simp add: req_def s1_def outcome_def)
    have r1: "async_run L (AtLoop (t # ts) acc, s, log)
                (AwaitRequest t ts acc, s1, log @ [Issued t])"
      by (rule async_run.step [OF async_run.step [OF async_run.start async_step.issue [OF Some]]
            async_step.meanwhile_request])
    show ?thesis
    proof (cases "after_request L t outcome s1")
      case (Pair res s2)
      show ?thesis
      proof (cases res)
        case (Inl e)
        have "async_run L (AtLoop (t # ts) acc, s, log) (Done (Inl e), s2, log @ [Issued t] @ [Settled t])"
          using async_run.step [OF r1 async_step.settle_throw [of L t outcome s1 e s2]] Pair Inl
          by simp
        then show ?thesis
          using st Pair Inl by auto
      next
        case (Inr t')
        have "async_run L (AtLoop (t # ts) acc, s, log)
                (AtLoop ts (acc @ [t']), sleep None s2,
                 (log @ [Issued t] @ [Settled t, SleepStarted]) @ [SleepOver])"
          using async_run.step [OF async_run.step [OF r1
                async_step.settle_return [of L t outcome s1 t' s2]] async_step.wake] Pair Inr
          by simp
        moreover obtain log' where
          "async_run L (AtLoop ts (acc @ [t']), sleep None s2,
                 (log @ [Issued t] @ [Settled t, SleepStarted]) @ [SleepOver])
             (Done (fst (signAll_loop L ts (acc @ [t']) (sleep None s2))),
              snd (signAll_loop L ts (acc @ [t']) (sleep None s2)), log')"
          using Cons.IH by blast
        ultimately have "async_run L (AtLoop (t # ts) acc, s, log)
             (Done (fst (signAll_loop L ts (acc @ [t']) (sleep None s2))),
              snd (signAll_loop L ts (acc @ [t']) (sleep None s2)), log')"
          by (rule async_run_trans)
        then show ?thesis
          using st Pair Inr by auto
      qed
    qed
  qed
qed


text \<open>C7. \<open>signAllTransactions\<close> signs in input order, one transaction at a time.
  With a wallet handle \<open>r\<close>, when every signature succeeds it returns the input list
  (the same transaction objects in the same order) in the state the specification gives:
  each transaction carries the public key and signature of the wallet's answer to its own
  request, each request was made in the state left by the signature and the sleep before
  it, and what was added to the trace is exactly, per transaction in input order, the
  \<open>sol_sign\<close> request to \<open>r\<close> followed by a sleep of the default 500 ms. When a
  signature fails it throws \<open>WalletSignTransactionError\<close>, emitted last, and the
  requests and sleeps made up to there are a prefix of that plan. Without a handle an empty
  list is returned as it is and anything else throws \<open>WalletNotConnectedError\<close>
  without a call of the wallet. At the grain of the awaits, this outcome is the outcome of
  a run of the job, and in every run, whatever the promises settle to and whatever happens
  while the job is suspended, the request for a transaction is issued only after the
  request for the one before it has settled and the sleep after it is over; a run that
  returns has done so for every transaction and returns the input list.\<close>

theorem signAllTransactions_in_order:
  "prefix (sign_steps (added s (snd (signAllTransactions L transactions s))))
      (sign_plan transactions) \<and>
   (\<forall>signed. fst (signAllTransactions L transactions s) = Inr signed \<longrightarrow>
      signed = transactions \<and>
      sign_steps (added s (snd (signAllTransactions L transactions s)))
        = sign_plan transactions) \<and>
   (\<forall>r. priv_wallet s = Some r \<longrightarrow>
      (case spec_sign_in_turn L r transactions s of
         Some s' \<Rightarrow>
           signAllTransactions L transactions s = (Inr transactions, s') \<and>
           added s s' = sign_effects r transactions
       | None \<Rightarrow>
           (\<exists>e. fst (signAllTransactions L transactions s)
                  = Inl (WalletError (WalletSignTransactionError e)) \<and>
                last (trace (snd (signAllTransactions L transactions s)))
                  = Emit (Error (WalletError (WalletSignTransactionError e)))))) \<and>
   (priv_wallet s = None \<longrightarrow>
      (case transactions of
         [] \<Rightarrow> fst (signAllTransactions L transactions s) = Inr [] \<and>
               added s (snd (signAllTransactions L transactions s)) = []
       | t # ts \<Rightarrow>
           fst (signAllTransactions L transactions s)
             = Inl (WalletError WalletNotConnectedError) \<and>
           added s (snd (signAllTransactions L transactions s))
             = [Emit (Error (WalletError WalletNotConnectedError))])) \<and>
   (\<exists>log. async_run L (AtLoop transactions [], s, [])
            (Done (fst (signAllTransactions L transactions s)),
             snd (signAllTransactions L transactions s), log)) \<and>
   (\<forall>job s' log. async_run L (AtLoop transactions [], s, []) (job, s', log) \<longrightarrow>
      prefix log (async_plan transactions) \<and>
      (\<forall>signed. job = Done (Inr signed) \<longrightarrow>
         signed = transactions \<and> log = async_plan transactions))"
proof -
  have run: "\<exists>log. async_run L (AtLoop transactions [], s, [])
            (Done (fst (signAllTransactions L transactions s)),
             snd (signAllTransactions L transactions s), log)"
    using async_run_signAll_loop [of L transactions "[]" s "[]"]
    by (simp add: signAllTransactions_def)
  have ordered: "\<forall>job s' log. async_run L (AtLoop transactions [], s, []) (job, s', log) \<longrightarrow>
      prefix log (async_plan transactions) \<and>
      (\<forall>signed. job = Done (Inr signed) \<longrightarrow>
         signed = transactions \<and> log = async_plan transactions)"
    using async_run_ordered [of L transactions s] by blast
  show ?thesis
    using signAllTransactions_atomic [of s L transactions] run ordered
    by (intro conjI) (elim conjE, assumption)+
qed


theorem signAllTransactions_in_order_witness:
  "fst (signAllTransactions demo_libs [7, 3] (after_connect observing_wallet)) = Inr [7, 3] \<and>
   added (after_connect observing_wallet)
      (snd (signAllTransactions demo_libs [7, 3] (after_connect observing_wallet)))
     = [Call 0 (Request \<lparr>method_name = ''sol_sign'', params = [PTx 7]\<rparr>), Sleep 500,
        Call 0 (Request \<lparr>method_name = ''sol_sign'', params = [PTx 3]\<rparr>), Sleep 500] \<and>
   txs (snd (signAllTransactions demo_libs [7, 3] (after_connect observing_wallet))) 7
     = [(good_account, [0x31])] \<and>
   txs (snd (signAllTransactions demo_libs [7, 3] (after_connect observing_wallet))) 3
     = [(good_account, [0x32])] \<and>
   fst (signAllTransactions demo_libs [7, 3] (after_connect refusing_wallet))
     = Inl (WalletError (WalletSignTransactionError (JsError ''User rejected the request''))) \<and>
   fst (signAllTransactions demo_libs [7, 3] (demo_state honest_wallet))
     = Inl (WalletError WalletNotConnectedError) \<and>
   fst (signAllTransactions demo_libs [] (demo_state honest_wallet)) = Inr [] \<and>
   async_run demo_libs (AtLoop [7, 3] [], after_connect observing_wallet, [])
     (Done (Inr [7, 3]),
      snd (signAllTransactions demo_libs [7, 3] (after_connect observing_wallet)),
      [Issued 7, Settled 7, SleepStarted, SleepOver, Issued 3, Settled 3, SleepStarted, SleepOver])"
proof -
  note defs = adapter_defs demo_libs_def good_account_def honest_wallet_def
      demo_state_def after_connect_def observing_wallet_def refusing_wallet_def added_def
  note a = signAllTransactions_in_order [of "after_connect observing_wallet" demo_libs "[7, 3]"]
  note exists_run = a [THEN conjunct2, THEN conjunct2, THEN conjunct2, THEN conjunct2,
      THEN conjunct1]
  note ordered = a [THEN conjunct2, THEN conjunct2, THEN conjunct2, THEN conjunct2,
      THEN conjunct2]
  have r: "fst (signAllTransactions demo_libs [7, 3] (after_connect observing_wallet))
           = Inr [7, 3]"
    by (simp add: defs)
  obtain log where run: "async_run demo_libs (AtLoop [7, 3] [], after_connect observing_wallet, [])
     (Done (Inr [7, 3]),
      snd (signAllTransactions demo_libs [7, 3] (after_connect observing_wallet)), log)"
    using exists_run unfolding r by (elim exE)
  have "log = async_plan [7, 3]"
    using ordered run by blast
  then have run': "async_run demo_libs (AtLoop [7, 3] [], after_connect observing_wallet, [])
     (Done (Inr [7, 3]),
      snd (signAllTransactions demo_libs [7, 3] (after_connect observing_wallet)),
      [Issued 7, Settled 7, SleepStarted, SleepOver, Issued 3, Settled 3, SleepStarted, SleepOver])"
    using run by simp
  have rest: "added (after_connect observing_wallet)
      (snd (signAllTransactions demo_libs [7, 3] (after_connect observing_wallet)))
     = [Call 0 (Request \<lparr>method_name = ''sol_sign'', params = [PTx 7]\<rparr>), Sleep 500,
        Call 0 (Request \<lparr>method_name = ''sol_sign'', params = [PTx 3]\<rparr>), Sleep 500]"
    "txs (snd (signAllTransactions demo_libs [7, 3] (after_connect observing_wallet))) 7
     = [(good_account, [0x31])]"
    "txs (snd (signAllTransactions demo_libs [7, 3] (after_connect observing_wallet))) 3
     = [(good_account, [0x32])]"
    "fst (signAllTransactions demo_libs [7, 3] (after_connect refusing_wallet))
     = Inl (WalletError (WalletSignTransactionError (JsError ''User rejected the request'')))"
    "fst (signAllTransactions demo_libs [7, 3] (demo_state honest_wallet))
     = Inl (WalletError WalletNotConnectedError)"
    "fst (signAllTransactions demo_libs [] (demo_state honest_wallet)) = Inr []"
    by (simp_all add: defs)
  show ?thesis
    using r rest run' by (intro conjI)
qed

subsection \<open>UTF-8\<close>

lemma decoder_ascii:
  "b \<le> 0x7F \<Longrightarrow> utf8_decoder cp 0 lo up (b # bs) = b # utf8_decoder 0 0 0x80 0xBF bs"
  by simp

lemma decoder_lead2:
  "0xC2 \<le> b \<Longrightarrow> b \<le> 0xDF \<Longrightarrow>
   utf8_decoder cp 0 lo up (b # bs) = utf8_decoder (b mod 0x20) 1 0x80 0xBF bs"
  by simp

lemma decoder_lead3:
  "0xE0 \<le> b \<Longrightarrow> b \<le> 0xEF \<Longrightarrow>
   utf8_decoder cp 0 lo up (b # bs) =
     utf8_decoder (b mod 0x10) 2 (if b = 0xE0 then 0xA0 else 0x80) (if b = 0xED then 0x9F else 0xBF) bs"
  by simp

lemma decoder_lead4:
  "0xF0 \<le> b \<Longrightarrow> b \<le> 0xF4 \<Longrightarrow>
   utf8_decoder cp 0 lo up (b # bs) =
     utf8_decoder (b mod 0x8) 3 (if b = 0xF0 then 0x90 else 0x80) (if b = 0xF4 then 0x8F else 0xBF) bs"
  by simp

lemma decoder_last:
  "lo \<le> b \<Longrightarrow> b \<le> up \<Longrightarrow>
   utf8_decoder cp 1 lo up (b # bs) = (cp * 0x40 + b mod 0x40) # utf8_decoder 0 0 0x80 0xBF bs"
  by simp

lemma decoder_more:
  "1 < needed \<Longrightarrow> lo \<le> b \<Longrightarrow> b \<le> up \<Longrightarrow>
   utf8_decoder cp needed lo up (b # bs) = utf8_decoder (cp * 0x40 + b mod 0x40) (needed - 1) 0x80 0xBF bs"
  by simp

declare utf8_decoder.simps [simp del]

lemma add_multiple_mod: "(r::nat) < m \<Longrightarrow> (k * m + r) mod m = r"
  by simp

lemma decode_two:
  assumes "0x80 \<le> cp" "cp < 0x800"
  shows "utf8_decoder 0 0 0x80 0xBF ([0xC0 + cp div 0x40, 0x80 + cp mod 0x40] @ bs)
         = cp # utf8_decoder 0 0 0x80 0xBF bs"
proof -
  define q where "q = cp div 0x40"
  define r where "r = cp mod 0x40"
  have cp: "q * 0x40 + r = cp" and r: "r < 0x40" by (simp_all add: q_def r_def)
  have q: "2 \<le> q" "q \<le> 0x1F" using assms by (simp_all add: q_def)
  have b1: "(0xC0 + q) mod 0x20 = q" using add_multiple_mod [of q "0x20" 6] q by simp
  have b2: "(0x80 + r) mod 0x40 = r" using add_multiple_mod [of r "0x40" 2] r by simp
  have "utf8_decoder 0 0 0x80 0xBF ([0xC0 + cp div 0x40, 0x80 + cp mod 0x40] @ bs)
        = utf8_decoder 0 0 0x80 0xBF ((0xC0 + q) # (0x80 + r) # bs)"
    by (simp only: q_def r_def append.simps)
  also have "\<dots> = utf8_decoder q 1 0x80 0xBF ((0x80 + r) # bs)"
    using q by (subst decoder_lead2) (simp_all add: b1)
  also have "\<dots> = (q * 0x40 + r) # utf8_decoder 0 0 0x80 0xBF bs"
    using r by (subst decoder_last) (simp_all add: b2)
  finally show ?thesis by (simp only: cp)
qed

lemma decode_three:
  assumes "0x800 \<le> cp" "cp < 0x10000" "cp < 0xD800 \<or> 0xDFFF < cp"
  shows "utf8_decoder 0 0 0x80 0xBF
           ([0xE0 + cp div 0x1000, 0x80 + (cp div 0x40) mod 0x40, 0x80 + cp mod 0x40] @ bs)
         = cp # utf8_decoder 0 0 0x80 0xBF bs"
proof -
  define p where "p = cp div 0x1000"
  define q where "q = (cp div 0x40) mod 0x40"
  define r where "r = cp mod 0x40"
  have "cp div 0x1000 = (cp div 0x40) div 0x40" by (simp add: div_mult2_eq)
  then have cp: "(p * 0x40 + q) * 0x40 + r = cp"
    unfolding p_def q_def r_def by simp
  have r: "r < 0x40" and q: "q < 0x40" by (simp_all add: q_def r_def)
  have p: "p \<le> 0xF" using assms by (simp add: p_def)
  have lo: "p = 0 \<Longrightarrow> 0x20 \<le> q" using assms cp r by simp
  have up: "p = 0xD \<Longrightarrow> q < 0x20" using assms cp r q by auto
  have b1: "(0xE0 + p) mod 0x10 = p" using add_multiple_mod [of p "0x10" 14] p by simp
  have b2: "(0x80 + q) mod 0x40 = q" using add_multiple_mod [of q "0x40" 2] q by simp
  have b3: "(0x80 + r) mod 0x40 = r" using add_multiple_mod [of r "0x40" 2] r by simp
  have "utf8_decoder 0 0 0x80 0xBF
          ([0xE0 + cp div 0x1000, 0x80 + (cp div 0x40) mod 0x40, 0x80 + cp mod 0x40] @ bs)
        = utf8_decoder 0 0 0x80 0xBF ((0xE0 + p) # (0x80 + q) # (0x80 + r) # bs)"
    by (simp only: p_def q_def r_def append.simps)
  also have "\<dots> = utf8_decoder p 2 (if p = 0 then 0xA0 else 0x80) (if p = 0xD then 0x9F else 0xBF)
            ((0x80 + q) # (0x80 + r) # bs)"
    using p by (subst decoder_lead3) (simp_all add: b1)
  also have "\<dots> = utf8_decoder (p * 0x40 + q) 1 0x80 0xBF ((0x80 + r) # bs)"
    using q lo up by (subst decoder_more) (auto simp: b2)
  also have "\<dots> = ((p * 0x40 + q) * 0x40 + r) # utf8_decoder 0 0 0x80 0xBF bs"
    using r by (subst decoder_last) (simp_all add: b3)
  finally show ?thesis by (simp only: cp)
qed

lemma decode_four:
  assumes "0x10000 \<le> cp" "cp < 0x110000"
  shows "utf8_decoder 0 0 0x80 0xBF
           ([0xF0 + cp div 0x40000, 0x80 + (cp div 0x1000) mod 0x40,
             0x80 + (cp div 0x40) mod 0x40, 0x80 + cp mod 0x40] @ bs)
         = cp # utf8_decoder 0 0 0x80 0xBF bs"
proof -
  define o' where "o' = cp div 0x40000"
  define p where "p = (cp div 0x1000) mod 0x40"
  define q where "q = (cp div 0x40) mod 0x40"
  define r where "r = cp mod 0x40"
  have "cp div 0x1000 = (cp div 0x40) div 0x40"
    and "cp div 0x40000 = ((cp div 0x40) div 0x40) div 0x40"
    by (simp_all add: div_mult2_eq)
  then have cp: "((o' * 0x40 + p) * 0x40 + q) * 0x40 + r = cp"
    unfolding o'_def p_def q_def r_def by simp
  have r: "r < 0x40" and q: "q < 0x40" and p: "p < 0x40" by (simp_all add: p_def q_def r_def)
  have o: "o' \<le> 4" using assms by (simp add: o'_def)
  have lo: "o' = 0 \<Longrightarrow> 0x10 \<le> p" using assms cp r q by simp
  have up: "o' = 4 \<Longrightarrow> p < 0x10" using assms cp r q by simp
  have b1: "(0xF0 + o') mod 0x8 = o'" using add_multiple_mod [of o' "0x8" 30] o by simp
  have b2: "(0x80 + p) mod 0x40 = p" using add_multiple_mod [of p "0x40" 2] p by simp
  have b3: "(0x80 + q) mod 0x40 = q" using add_multiple_mod [of q "0x40" 2] q by simp
  have b4: "(0x80 + r) mod 0x40 = r" using add_multiple_mod [of r "0x40" 2] r by simp
  have "utf8_decoder 0 0 0x80 0xBF
           ([0xF0 + cp div 0x40000, 0x80 + (cp div 0x1000) mod 0x40,
             0x80 + (cp div 0x40) mod 0x40, 0x80 + cp mod 0x40] @ bs)
        = utf8_decoder 0 0 0x80 0xBF ((0xF0 + o') # (0x80 + p) # (0x80 + q) # (0x80 + r) # bs)"
    by (simp only: o'_def p_def q_def r_def append.simps)
  also have "\<dots> = utf8_decoder o' 3 (if o' = 0 then 0x90 else 0x80) (if o' = 4 then 0x8F else 0xBF)
            ((0x80 + p) # (0x80 + q) # (0x80 + r) # bs)"
    using o by (subst decoder_lead4) (simp_all add: b1)
  also have "\<dots> = utf8_decoder (o' * 0x40 + p) 2 0x80 0xBF ((0x80 + q) # (0x80 + r) # bs)"
    using p lo up by (subst decoder_more) (auto simp: b2)
  also have "\<dots> = utf8_decoder ((o' * 0x40 + p) * 0x40 + q) 1 0x80 0xBF ((0x80 + r) # bs)"
    using q by (subst decoder_more) (simp_all add: b3)
  also have "\<dots> = (((o' * 0x40 + p) * 0x40 + q) * 0x40 + r) # utf8_decoder 0 0 0x80 0xBF bs"
    using r by (subst decoder_last) (simp_all add: b4)
  finally show ?thesis by (simp only: cp)
qed

lemma decoder_encode_cp:
  assumes "scalar cp"
  shows "utf8_decoder 0 0 0x80 0xBF (utf8_encode_cp cp @ bs) = cp # utf8_decoder 0 0 0x80 0xBF bs"
proof -
  consider "cp < 0x80" | "0x80 \<le> cp \<and> cp < 0x800" | "0x800 \<le> cp \<and> cp < 0x10000" | "0x10000 \<le> cp"
    by linarith
  then show ?thesis
  proof cases
    case 1
    then show ?thesis by (simp add: utf8_encode_cp_def decoder_ascii)
  next
    case 2
    then show ?thesis using decode_two [of cp bs] by (simp add: utf8_encode_cp_def)
  next
    case 3
    then show ?thesis using decode_three [of cp bs] assms
      by (simp add: utf8_encode_cp_def scalar_def)
  next
    case 4
    then show ?thesis using decode_four [of cp bs] assms
      by (simp add: utf8_encode_cp_def scalar_def)
  qed
qed


lemma utf8_encode_cp_bytes:
  assumes "cp < 0x110000" "b \<in> set (utf8_encode_cp cp)"
  shows "b < 256"
proof -
  have m: "\<And>n::nat. 0x80 + n mod 0x40 < 256"
  proof -
    fix n :: nat
    have "n mod 0x40 < 0x40" by simp
    then show "0x80 + n mod 0x40 < 256" by linarith
  qed
  have l2: "cp < 0x800 \<Longrightarrow> 0xC0 + cp div 0x40 < 256" by simp
  have l3: "cp < 0x10000 \<Longrightarrow> 0xE0 + cp div 0x1000 < 256" by simp
  have l4: "0xF0 + cp div 0x40000 < 256" using assms(1) by simp
  show ?thesis
    using assms(2) m l2 l3 l4
    by (auto simp: utf8_encode_cp_def split: if_splits)
qed

lemma to_scalar_values_scalar: "list_all scalar (to_scalar_values s)"
proof (induction s rule: to_scalar_values.induct)
  case 1
  then show ?case by simp
next
  case (2 c)
  have "unat c < 0x10000" using unsigned_less [of c, where ?'a = nat] by simp
  then show ?case
    by (auto simp: scalar_def lead_surrogate_def trail_surrogate_def)
next
  case (3 c d cs)
  have c: "unat c < 0x10000" using unsigned_less [of c, where ?'a = nat] by simp
  have "lead_surrogate c \<Longrightarrow> trail_surrogate d \<Longrightarrow>
        scalar (0x10000 + (unat c - 0xD800) * 0x400 + (unat d - 0xDC00))"
    unfolding scalar_def lead_surrogate_def trail_surrogate_def by arith
  with 3 c show ?case
    by (auto simp: scalar_def lead_surrogate_def trail_surrogate_def)
qed

lemma utf8_decode_encode:
  "list_all scalar cps \<Longrightarrow> utf8_decode (concat (map utf8_encode_cp cps)) = cps"
proof (induction cps)
  case Nil
  then show ?case by (simp add: utf8_decode_def utf8_decoder.simps)
next
  case (Cons cp cps)
  then show ?case
    using decoder_encode_cp [of cp "concat (map utf8_encode_cp cps)"]
    by (simp add: utf8_decode_def)
qed

lemma map_unat_of_nat:
  "\<forall>b \<in> set bs. b < 256 \<Longrightarrow> map unat (map of_nat bs :: 8 word list) = bs"
  by (induction bs) (simp_all add: unat_of_nat)

lemma utf8_encode_bytes:
  "list_all scalar cps \<Longrightarrow> b \<in> set (concat (map utf8_encode_cp cps)) \<Longrightarrow> b < 256"
  by (induction cps) (auto simp: scalar_def dest: utf8_encode_cp_bytes)

lemma utf16_roundtrip: "well_formed s \<Longrightarrow> from_scalar_values (to_scalar_values s) = s"
proof (induction s rule: to_scalar_values.induct)
  case 1
  then show ?case by simp
next
  case (2 c)
  have "unat c < 0x10000" using unsigned_less [of c, where ?'a = nat] by simp
  with 2 show ?case by simp
next
  case (3 c d cs)
  have c: "unat c < 0x10000" using unsigned_less [of c, where ?'a = nat] by simp
  show ?case
  proof (cases "lead_surrogate c")
    case True
    with 3 have d: "trail_surrogate d" and wf: "well_formed cs" by simp_all
    define h where "h = unat c - 0xD800"
    define l where "l = unat d - 0xDC00"
    have h: "unat c = 0xD800 + h" "h < 0x400"
      using True unfolding h_def lead_surrogate_def by arith+
    have l: "unat d = 0xDC00 + l" "l < 0x400"
      using d unfolding l_def trail_surrogate_def by arith+
    have "(h * 0x400 + l) div 0x400 = h" "(h * 0x400 + l) mod 0x400 = l" using l by simp_all
    moreover have "(of_nat (unat c) :: 16 word) = c" "(of_nat (unat d) :: 16 word) = d"
      by simp_all
    ultimately have "(of_nat (0xD800 + (h * 0x400 + l) div 0x400) :: 16 word) = c"
      and "(of_nat (0xDC00 + (h * 0x400 + l) mod 0x400) :: 16 word) = d"
      by (simp_all only: h(1) l(1))
    with 3 True d wf show ?thesis
      by (simp add: h_def [symmetric] l_def [symmetric])
  next
    case False
    with 3 c show ?thesis by simp
  qed
qed


text \<open>On the UTF-8 bytes of a well-formed text that does not start with a byte order mark,
  the decoder \<open>signMessage\<close> uses gives back the text.\<close>

lemma strip_bom_to_scalar_values:
  assumes "\<not> starts_with_bom t"
  shows "strip_bom (to_scalar_values t) = to_scalar_values t"
proof (cases t rule: to_scalar_values.cases)
  case 1
  then show ?thesis by (simp add: strip_bom_def)
next
  case (2 c)
  have "unat c = 0xFEFF \<Longrightarrow> c = 0xFEFF"
  proof -
    assume "unat c = 0xFEFF"
    then have "(of_nat (unat c) :: 16 word) = of_nat 0xFEFF" by simp
    then show "c = 0xFEFF" by simp
  qed
  with 2 assms show ?thesis by (auto simp: strip_bom_def)
next
  case (3 c d cs)
  have "unat c = 0xFEFF \<Longrightarrow> c = 0xFEFF"
  proof -
    assume "unat c = 0xFEFF"
    then have "(of_nat (unat c) :: 16 word) = of_nat 0xFEFF" by simp
    then show "c = 0xFEFF" by simp
  qed
  with 3 assms show ?thesis by (auto simp: strip_bom_def)
qed

lemma TextDecoder_decode_encode:
  assumes "well_formed t" and "\<not> starts_with_bom t"
  shows "TextDecoder_decode (TextEncoder_encode (Some t)) = t"
proof -
  have sc: "list_all scalar (to_scalar_values t)" by (rule to_scalar_values_scalar)
  have "map unat (TextEncoder_encode (Some t)) = concat (map utf8_encode_cp (to_scalar_values t))"
    using map_unat_of_nat [of "concat (map utf8_encode_cp (to_scalar_values t))"]
      utf8_encode_bytes [OF sc]
    by (simp only: TextEncoder_encode_def option.case) blast
  then show ?thesis
    using utf8_decode_encode [OF sc] utf16_roundtrip [OF assms(1)]
      strip_bom_to_scalar_values [OF assms(2)]
    by (simp add: TextDecoder_decode_def)
qed

subsection \<open>Signing a message\<close>

text \<open>C8, as stated, fails for two kinds of signature string. \<open>TextEncoder\<close>
  replaces a lone surrogate by U+FFFD: the bytes returned for a signature string that
  consists of the code unit D800 are the bytes of the string that consists of U+FFFD, and
  they decode to that other string. And \<open>TextDecoder\<close> drops a byte order mark at
  the start: the bytes returned for the well-formed string U+FEFF followed by \<open>A\<close>
  decode to \<open>A\<close> alone.\<close>

theorem signMessage_lone_surrogate:
  "fst (call_request 0 \<lparr>method_name = ''sol_sign'',
                         params = [PStr (TextDecoder_decode [0x68, 0x69])]\<rparr>
          (after_connect lone_surrogate_wallet))
     = Inr \<lparr>resp_signature = None, resp_publicKey = None, resp_address = None,
            resp_msg = None, resp_sig = Some [0xD800]\<rparr> \<and>
   fst (signMessage [0x68, 0x69] (after_connect lone_surrogate_wallet)) = Inr [0xEF, 0xBF, 0xBD] \<and>
   TextDecoder_decode [0xEF, 0xBF, 0xBD] = [0xFFFD] \<and>
   TextEncoder_encode (Some [0xFFFD]) = [0xEF, 0xBF, 0xBD] \<and>
   fst (call_request 0 \<lparr>method_name = ''sol_sign'',
                         params = [PStr (TextDecoder_decode [0x68, 0x69])]\<rparr>
          (after_connect bom_wallet))
     = Inr \<lparr>resp_signature = None, resp_publicKey = None, resp_address = None,
            resp_msg = None, resp_sig = Some [0xFEFF, 0x41]\<rparr> \<and>
   well_formed [0xFEFF, 0x41] \<and>
   fst (signMessage [0x68, 0x69] (after_connect bom_wallet)) = Inr [0xEF, 0xBB, 0xBF, 0x41] \<and>
   TextDecoder_decode [0xEF, 0xBB, 0xBF, 0x41] = [0x41]"
  by (simp add: adapter_defs demo_libs_def good_account_def honest_wallet_def
      demo_state_def after_connect_def lone_surrogate_wallet_def bom_wallet_def
      TextEncoder_encode_def TextDecoder_decode_def
      utf8_decode_def utf8_decoder.simps utf8_encode_cp_def strip_bom_def
      lead_surrogate_def trail_surrogate_def)

text \<open>C8, amended. Without a wallet handle \<open>signMessage\<close> throws
  \<open>WalletNotConnectedError\<close>. With one, it decodes the bytes as UTF-8 and sends the
  text to the wallet's \<open>request\<close> under the method \<open>sol_sign\<close>. Decoding and
  encoding cannot fail, so the underlying failure is that of the request: it comes back
  wrapped in \<open>WalletSignTransactionError\<close> and emitted, and \<open>signMessage\<close>
  throws nothing else. Otherwise the result is the UTF-8 encoding of the response's
  \<open>sig\<close> string, whatever that string is; and for every well-formed string (no
  unpaired surrogate) that does not start with a byte order mark, decoding those bytes with
  the same decoder gives back exactly that string.\<close>

theorem signMessage_round_trip:
  "(priv_wallet s = None \<longrightarrow>
      fst (signMessage message s) = Inl (WalletError WalletNotConnectedError) \<and>
      added s (snd (signMessage message s))
        = [Emit (Error (WalletError WalletNotConnectedError))]) \<and>
   (\<forall>r. priv_wallet s = Some r \<longrightarrow>
      (\<exists>es. added s (snd (signMessage message s))
          = Call r (Request \<lparr>method_name = ''sol_sign'',
                              params = [PStr (TextDecoder_decode message)]\<rparr>) # es) \<and>
      (\<forall>e. fst (call_request r \<lparr>method_name = ''sol_sign'',
                     params = [PStr (TextDecoder_decode message)]\<rparr> s) = Inl e \<longrightarrow>
         fst (signMessage message s) = Inl (WalletError (WalletSignTransactionError e)) \<and>
         last (trace (snd (signMessage message s)))
           = Emit (Error (WalletError (WalletSignTransactionError e))) \<and>
         added s (snd (signMessage message s))
           = [Call r (Request \<lparr>method_name = ''sol_sign'',
                                params = [PStr (TextDecoder_decode message)]\<rparr>),
              Emit (Error (WalletError (WalletSignTransactionError e)))]) \<and>
      (\<forall>resp. fst (call_request r \<lparr>method_name = ''sol_sign'',
                     params = [PStr (TextDecoder_decode message)]\<rparr> s) = Inr resp \<longrightarrow>
         fst (signMessage message s) = Inr (TextEncoder_encode (resp_sig resp)) \<and>
         added s (snd (signMessage message s))
           = [Call r (Request \<lparr>method_name = ''sol_sign'',
                                params = [PStr (TextDecoder_decode message)]\<rparr>)]) \<and>
      (\<forall>resp sg. fst (call_request r \<lparr>method_name = ''sol_sign'',
                     params = [PStr (TextDecoder_decode message)]\<rparr> s) = Inr resp \<and>
           resp_sig resp = Some sg \<and> well_formed sg \<and> \<not> starts_with_bom sg \<longrightarrow>
         (\<exists>bs. fst (signMessage message s) = Inr bs \<and> TextDecoder_decode bs = sg)) \<and>
      (\<forall>t. fst (signMessage message s) = Inl t \<longrightarrow>
         (\<exists>e. fst (call_request r \<lparr>method_name = ''sol_sign'',
                     params = [PStr (TextDecoder_decode message)]\<rparr> s) = Inl e \<and>
              t = WalletError (WalletSignTransactionError e)))) \<and>
   (\<forall>text. well_formed text \<and> \<not> starts_with_bom text \<longrightarrow>
      TextDecoder_decode (TextEncoder_encode (Some text)) = text)"
proof (cases "priv_wallet s")
  case None
  then show ?thesis
    by (simp add: signMessage_def emit_def added_def TextDecoder_decode_encode)
next
  case (Some r)
  obtain res s1 where c: "call_request r \<lparr>method_name = ''sol_sign'',
      params = [PStr (TextDecoder_decode message)]\<rparr> s = (res, s1)"
    by (cases "call_request r \<lparr>method_name = ''sol_sign'',
      params = [PStr (TextDecoder_decode message)]\<rparr> s")
  then have t: "trace s1 = trace s @ [Call r (Request \<lparr>method_name = ''sol_sign'',
      params = [PStr (TextDecoder_decode message)]\<rparr>)]"
    by (auto simp: call_request_def Let_def split: prod.splits)
  show ?thesis
  proof (cases res)
    case (Inl e)
    with Some c t show ?thesis
      by (simp add: signMessage_def emit_def added_def TextDecoder_decode_encode)
  next
    case (Inr resp)
    with Some c t show ?thesis
      by (simp add: signMessage_def added_def TextDecoder_decode_encode)
  qed
qed

theorem signMessage_round_trip_witness:
  "fst (signMessage [0x68, 0x69] (demo_state honest_wallet))
     = Inl (WalletError WalletNotConnectedError) \<and>
   fst (signMessage [0x68, 0x69] (after_connect refusing_wallet))
     = Inl (WalletError (WalletSignTransactionError (JsError ''User rejected the request''))) \<and>
   fst (signMessage [0x68, 0x69] (after_connect honest_wallet))
     = Inr [0x73, 0xF0, 0x9F, 0x98, 0x80] \<and>
   well_formed [0x73, 0xD83D, 0xDE00] \<and>
   TextDecoder_decode [0x73, 0xF0, 0x9F, 0x98, 0x80] = [0x73, 0xD83D, 0xDE00]"
  using signMessage_round_trip [of "demo_state honest_wallet" "[0x68, 0x69]"]
    signMessage_round_trip [of "after_connect refusing_wallet" "[0x68, 0x69]"]
    signMessage_round_trip [of "after_connect honest_wallet" "[0x68, 0x69]"]
  by (simp add: adapter_defs demo_libs_def good_account_def honest_wallet_def
      demo_state_def after_connect_def refusing_wallet_def TextEncoder_encode_def
      TextDecoder_decode_def utf8_decode_def utf8_decoder.simps utf8_encode_cp_def strip_bom_def
      lead_surrogate_def trail_surrogate_def)

end
